theory Spec2Isabelle
  imports Complex_Main
begin

section \<open>Battery cell simulation: the cell model\<close>

text \<open>
  The development embeds the core of \<^verbatim>\<open>enhanced_battery_dashboard.py\<close> (and the
  functions it shares with \<^verbatim>\<open>battery_dashboard.py\<close>): the chemistry table, the
  state-of-charge function, the status classifier, the per-cell update rule, the
  manual controls and the task sequencer.

  Conventions of the embedding:
  \<^item> a Python \<^verbatim>\<open>float\<close> is a \<^typ>\<open>real\<close>: arithmetic is exact, there is no rounding of
    the binary representation, no infinity and no NaN; the update rule is given a second
    time with every arithmetic result rounded, for what depends on the rounding;
  \<^item> a dictionary with a fixed set of keys is a \<^theory_text>\<open>record\<close>; \<^verbatim>\<open>cells_data\<close>, a
    dictionary in insertion order with distinct keys, is an association list;
  \<^item> a function that mutates the session in place and may raise returns the state it
    leaves behind together with the exception, if any: \<open>(state, None)\<close> on normal
    return, \<open>(state, Some e)\<close> when \<open>e\<close> was raised with the mutations made so far;
  \<^item> \<^verbatim>\<open>datetime.now()\<close> is an argument \<open>now\<close>, in microseconds;
  \<^item> the \<^verbatim>\<open>random\<close> module is a stream of the values \<^verbatim>\<open>random.random()\<close> returns.
\<close>

subsection \<open>Exceptions\<close>

datatype pyerror = ZeroDivisionError | KeyError | StreamlitAPIException

subsection \<open>Strings\<close>

text \<open>\<^verbatim>\<open>str.lower()\<close> on ASCII text.\<close>

definition lower_char :: "char \<Rightarrow> char" where
  "lower_char c =
     (case map_of (zip ''ABCDEFGHIJKLMNOPQRSTUVWXYZ'' ''abcdefghijklmnopqrstuvwxyz'') c of
        Some d \<Rightarrow> d
      | None \<Rightarrow> c)"

definition lower :: "string \<Rightarrow> string" where
  "lower s = map lower_char s"

text \<open>\<^verbatim>\<open>str.upper()\<close> on ASCII text.\<close>

definition upper_char :: "char \<Rightarrow> char" where
  "upper_char c =
     (case map_of (zip ''abcdefghijklmnopqrstuvwxyz'' ''ABCDEFGHIJKLMNOPQRSTUVWXYZ'') c of
        Some d \<Rightarrow> d
      | None \<Rightarrow> c)"

definition upper :: "string \<Rightarrow> string" where
  "upper s = map upper_char s"

text \<open>The decimal digits of a natural number, as \<^verbatim>\<open>f"{n}"\<close> prints them.\<close>

fun str_nat :: "nat \<Rightarrow> string" where
  "str_nat n =
     (if n < 10 then [''0123456789'' ! n] else str_nat (n div 10) @ [''0123456789'' ! (n mod 10)])"

declare str_nat.simps [simp del]

subsection \<open>Rounding and random numbers\<close>

text \<open>
  \<^verbatim>\<open>round(x, ndigits)\<close>: the nearest multiple of \<open>10 ^ -ndigits\<close>, a tie going to
  the even one.
\<close>

definition round_half_even :: "real \<Rightarrow> int" where
  "round_half_even y =
     (let f = \<lfloor>y\<rfloor>; d = y - of_int f
      in if d < 1 / 2 then f else if 1 / 2 < d then f + 1 else if even f then f else f + 1)"

definition py_round :: "real \<Rightarrow> nat \<Rightarrow> real" where
  "py_round x ndigits = of_int (round_half_even (x * 10 ^ ndigits)) / 10 ^ ndigits"

text \<open>
  The generator: \<open>g 0\<close> is the next value of \<^verbatim>\<open>random.random()\<close>, a number of
  \<open>[0, 1)\<close>, and \<open>g \<circ> Suc\<close> the generator after the draw.
  \<^verbatim>\<open>random.uniform(a, b)\<close> is \<^verbatim>\<open>a + (b - a) * random()\<close>.
\<close>

type_synonym rng = "nat \<Rightarrow> real"

definition rng_ok :: "rng \<Rightarrow> bool" where
  "rng_ok g = (\<forall>n. 0 \<le> g n \<and> g n < 1)"

definition uniform :: "real \<Rightarrow> real \<Rightarrow> rng \<Rightarrow> real \<times> rng" where
  "uniform a b g = (a + (b - a) * g 0, \<lambda>n. g (Suc n))"

subsection \<open>Chemistry table\<close>

record cell_specs =
  spec_nominal_voltage :: real
  spec_min_voltage :: real
  spec_max_voltage :: real
  spec_nominal_capacity :: int

definition get_cell_specs :: "string \<Rightarrow> cell_specs" where
  "get_cell_specs cell_type =
     (if lower cell_type = ''lfp'' then
        \<lparr>spec_nominal_voltage = 3.2, spec_min_voltage = 2.8, spec_max_voltage = 3.6,
         spec_nominal_capacity = 100\<rparr>
      else if lower cell_type = ''nmc'' then
        \<lparr>spec_nominal_voltage = 3.6, spec_min_voltage = 3.2, spec_max_voltage = 4.0,
         spec_nominal_capacity = 120\<rparr>
      else
        \<lparr>spec_nominal_voltage = 3.7, spec_min_voltage = 3.0, spec_max_voltage = 4.2,
         spec_nominal_capacity = 110\<rparr>)"

subsection \<open>State of charge and status\<close>

text \<open>
  \<^verbatim>\<open>max(0, min(100, ((voltage - min_voltage) / (max_voltage - min_voltage)) * 100))\<close>;
  the division raises when the two bounds are equal.
\<close>

definition calculate_soc_percentage :: "real \<Rightarrow> real \<Rightarrow> real \<Rightarrow> pyerror + real" where
  "calculate_soc_percentage v min_v max_v =
     (if max_v - min_v = 0 then Inl ZeroDivisionError
      else Inr (max 0 (min 100 (((v - min_v) / (max_v - min_v)) * 100))))"

text \<open>\<^verbatim>\<open>get_cell_status(current, task_running=False)\<close> of the enhanced dashboard.\<close>

definition get_cell_status :: "real \<Rightarrow> bool \<Rightarrow> string \<times> string" where
  "get_cell_status i task_running =
     (if task_running then
        (if i > 0.1 then (''Task: Charging'', ''task'')
         else if i < - 0.1 then (''Task: Discharging'', ''task'')
         else (''Task: Idle'', ''task''))
      else
        (if i > 0.1 then (''Charging'', ''charging'')
         else if i < - 0.1 then (''Discharging'', ''discharging'')
         else (''Idle'', ''idle'')))"

text \<open>\<^verbatim>\<open>get_cell_status(current)\<close> of the basic dashboard.\<close>

definition get_cell_status_basic :: "real \<Rightarrow> string \<times> string" where
  "get_cell_status_basic i =
     (if i > 0.1 then (''Charging'', ''charging'')
      else if i < - 0.1 then (''Discharging'', ''discharging'')
      else (''Idle'', ''idle''))"

subsection \<open>Cells and the update rule\<close>

record cell =
  voltage :: real
  current :: real
  temp :: real
  capacity :: real
  min_voltage :: real
  max_voltage :: real
  nominal_voltage :: real
  nominal_capacity :: int
  soc :: real
  cell_type :: string

text \<open>
  \<^verbatim>\<open>update_cell_calculations\<close>, on the cell's dictionary. The statements run in the
  source's order, so the \<^verbatim>\<open>capacity\<close> field is computed from the voltage before the
  step, and a division by zero in the state of charge leaves the new capacity and
  voltage behind.
\<close>

definition update_cell_calculations :: "cell \<Rightarrow> rng \<Rightarrow> (cell \<times> rng) \<times> pyerror option" where
  "update_cell_calculations cell_data g =
     (let c1 = cell_data\<lparr>capacity := py_round (voltage cell_data * \<bar>current cell_data\<bar>) 2\<rparr>;
          c2 = (if current c1 > 0 then
                  (let voltage_change = min 0.1 (current c1 * 0.02)
                   in c1\<lparr>voltage := min (max_voltage c1) (voltage c1 + voltage_change)\<rparr>)
                else if current c1 < 0 then
                  (let voltage_change = min 0.1 (\<bar>current c1\<bar> * 0.02)
                   in c1\<lparr>voltage := max (min_voltage c1) (voltage c1 - voltage_change)\<rparr>)
                else c1)
      in case calculate_soc_percentage (voltage c2) (min_voltage c2) (max_voltage c2) of
           Inl e \<Rightarrow> ((c2, g), Some e)
         | Inr s \<Rightarrow>
             (let c3 = c2\<lparr>soc := s\<rparr>
              in if \<bar>current c3\<bar> > 1 then
                   (let (temp_change, g') = uniform (- 1) 2 g
                    in ((c3\<lparr>temp := max 20 (min 60 (temp c3 + temp_change))\<rparr>, g'), None))
                 else ((c3, g), None)))"

subsection \<open>The update rule in rounded arithmetic\<close>

text \<open>
  A binary floating-point operation returns the exact result rounded to the nearest
  representable number. \<open>fl\<close> stands for this rounding: \<open>fl_ok\<close> is the bound on its
  relative error for numbers of 53 significant bits, which holds of IEEE doubles
  wherever no overflow or underflow occurs.
\<close>

definition fl_ok :: "(real \<Rightarrow> real) \<Rightarrow> bool" where
  "fl_ok fl = (\<forall>x. \<bar>fl x - x\<bar> \<le> \<bar>x\<bar> / 2 ^ 53)"

text \<open>
  Rounding to 53 significant bits, a tie going to the even significand: the rounding
  of IEEE doubles, with no bound on the exponent.
\<close>

definition fl64 :: "real \<Rightarrow> real" where
  "fl64 x =
     (if x = 0 then 0
      else (let ulp = 2 powr (of_int (\<lfloor>log 2 \<bar>x\<bar>\<rfloor> - 52))
            in of_int (round_half_even (x / ulp)) * ulp))"

text \<open>
  \<^verbatim>\<open>random.uniform\<close>, \<^verbatim>\<open>calculate_soc_percentage\<close> and \<^verbatim>\<open>update_cell_calculations\<close> once
  more, with \<open>fl\<close> around every arithmetic result and every decimal literal that is
  not a whole number; \<^verbatim>\<open>round(x, 2)\<close> returns the double nearest to the rounded decimal.
  With the identity for \<open>fl\<close> they are the functions above.
\<close>

definition uniform_fl :: "(real \<Rightarrow> real) \<Rightarrow> real \<Rightarrow> real \<Rightarrow> rng \<Rightarrow> real \<times> rng" where
  "uniform_fl fl a b g = (fl (a + fl (fl (b - a) * g 0)), \<lambda>n. g (Suc n))"

definition calculate_soc_percentage_fl :: "(real \<Rightarrow> real) \<Rightarrow> real \<Rightarrow> real \<Rightarrow> real \<Rightarrow> pyerror + real" where
  "calculate_soc_percentage_fl fl v min_v max_v =
     (if fl (max_v - min_v) = 0 then Inl ZeroDivisionError
      else Inr (max 0 (min 100 (fl (fl (fl (v - min_v) / fl (max_v - min_v)) * 100)))))"

definition update_cell_calculations_fl ::
    "(real \<Rightarrow> real) \<Rightarrow> cell \<Rightarrow> rng \<Rightarrow> (cell \<times> rng) \<times> pyerror option" where
  "update_cell_calculations_fl fl cell_data g =
     (let c1 = cell_data\<lparr>capacity :=
                 fl (py_round (fl (voltage cell_data * \<bar>current cell_data\<bar>)) 2)\<rparr>;
          c2 = (if current c1 > 0 then
                  (let voltage_change = min (fl 0.1) (fl (current c1 * fl 0.02))
                   in c1\<lparr>voltage := min (max_voltage c1) (fl (voltage c1 + voltage_change))\<rparr>)
                else if current c1 < 0 then
                  (let voltage_change = min (fl 0.1) (fl (\<bar>current c1\<bar> * fl 0.02))
                   in c1\<lparr>voltage := max (min_voltage c1) (fl (voltage c1 - voltage_change))\<rparr>)
                else c1)
      in case calculate_soc_percentage_fl fl (voltage c2) (min_voltage c2) (max_voltage c2) of
           Inl e \<Rightarrow> ((c2, g), Some e)
         | Inr s \<Rightarrow>
             (let c3 = c2\<lparr>soc := s\<rparr>
              in if \<bar>current c3\<bar> > 1 then
                   (let (temp_change, g') = uniform_fl fl (- 1) 2 g
                    in ((c3\<lparr>temp := max 20 (min 60 (fl (temp c3 + temp_change)))\<rparr>, g'), None))
                 else ((c3, g), None)))"

section \<open>The session\<close>

subsection \<open>Tasks, history and session state\<close>

text \<open>
  A task dictionary, by its \<^verbatim>\<open>task_type\<close>. The keys \<^verbatim>\<open>current\<close>, \<^verbatim>\<open>capacity\<close> and
  \<^verbatim>\<open>voltage\<close> of a task are the selectors \<open>task_current\<close>, \<open>task_capacity\<close> and
  \<open>task_voltage\<close>.
\<close>

datatype task =
    CC_CV (cc_current: real) (cv_voltage: real) (task_current: real) (task_capacity: real)
      (time_seconds: int)
  | IDLE (time_seconds: int)
  | CC_CD (cc_current: real) (task_voltage: real) (task_capacity: real) (time_seconds: int)

fun task_type :: "task \<Rightarrow> string" where
  "task_type (CC_CV _ _ _ _ _) = ''CC_CV''"
| "task_type (IDLE _) = ''IDLE''"
| "task_type (CC_CD _ _ _ _) = ''CC_CD''"

text \<open>\<^verbatim>\<open>task_data.get('cc_current', default)\<close>.\<close>

fun get_cc_current :: "task \<Rightarrow> real \<Rightarrow> real" where
  "get_cc_current (CC_CV cc _ _ _ _) dflt = cc"
| "get_cc_current (IDLE _) dflt = dflt"
| "get_cc_current (CC_CD cc _ _ _) dflt = cc"

text \<open>
  An entry of \<^verbatim>\<open>task_history\<close>: the keys \<^verbatim>\<open>timestamp\<close> (the instant, in whole seconds,
  that the source formats), \<^verbatim>\<open>task\<close>, \<^verbatim>\<open>type\<close> and \<^verbatim>\<open>status\<close>.
\<close>

record history_entry =
  entry_timestamp :: int
  entry_task :: string
  entry_type :: string
  entry_status :: string

text \<open>
  \<^verbatim>\<open>st.session_state\<close>, with the state of the \<^verbatim>\<open>random\<close> module beside it.
  \<^verbatim>\<open>tasks_data\<close> has the keys \<^verbatim>\<open>task_1\<close>, ..., \<^verbatim>\<open>task_n\<close> in this order: it is the
  list of its values, \<^verbatim>\<open>task_{i+1}\<close> at position \<open>i\<close>.
\<close>

record session =
  cells_data :: "(string \<times> cell) list"
  cell_types :: "string list"
  setup_complete :: bool
  tasks_data :: "task list"
  task_running :: bool
  current_task_index :: nat
  task_start_time :: "int option"
  task_history :: "history_entry list"
  random_state :: rng

subsection \<open>Cell initialisation\<close>

text \<open>
  The loop of the \<^verbatim>\<open>Initialize Cells\<close> button over \<^verbatim>\<open>enumerate(cell_types, start=idx)\<close>.
  The keys \<^verbatim>\<open>cell_{idx}_{type}\<close> differ in \<open>idx\<close>, so each assignment adds an entry.
\<close>

fun init_cells :: "nat \<Rightarrow> string list \<Rightarrow> rng \<Rightarrow> ((string \<times> cell) list \<times> rng) \<times> pyerror option" where
  "init_cells idx [] g = (([], g), None)"
| "init_cells idx (ct # cts) g =
     (let cell_key = ''cell_'' @ str_nat idx @ ''_'' @ lower ct;
          specs = get_cell_specs ct;
          (u, g1) = uniform (spec_min_voltage specs) (spec_max_voltage specs) g;
          v = py_round u 2;
          i = 0;
          (w, g2) = uniform 25 40 g1;
          t = py_round w 1;
          cap = py_round (v * \<bar>i\<bar>) 2
      in case calculate_soc_percentage v (spec_min_voltage specs) (spec_max_voltage specs) of
           Inl e \<Rightarrow> (([], g2), Some e)
         | Inr s \<Rightarrow>
             (case init_cells (Suc idx) cts g2 of
                ((rest, g3), e) \<Rightarrow>
                  (((cell_key,
                     \<lparr>voltage = v, current = i, temp = t, capacity = cap,
                      min_voltage = spec_min_voltage specs, max_voltage = spec_max_voltage specs,
                      nominal_voltage = spec_nominal_voltage specs,
                      nominal_capacity = spec_nominal_capacity specs,
                      soc = s, cell_type = upper ct\<rparr>) # rest, g3), e)))"

text \<open>
  The \<^verbatim>\<open>Initialize Cells\<close> button of \<^verbatim>\<open>setup_cells\<close>: the session is assigned only
  after the loop has run to its end.
\<close>

definition setup_cells :: "string list \<Rightarrow> session \<Rightarrow> session \<times> pyerror option" where
  "setup_cells types s =
     (case init_cells 1 types (random_state s) of
        ((cells, g), None) \<Rightarrow>
          (s\<lparr>cells_data := cells, cell_types := types, setup_complete := True,
             random_state := g\<rparr>, None)
      | ((cells, g), Some e) \<Rightarrow> (s\<lparr>random_state := g\<rparr>, Some e))"

subsection \<open>Setting currents\<close>

text \<open>
  The loop \<^verbatim>\<open>for cell_key in cells_data: cells_data[cell_key]['current'] = value;
  update_cell_calculations(cell_key)\<close>. It stops at the first exception, with the
  cells before it updated.
\<close>

fun for_each_cell :: "real \<Rightarrow> (string \<times> cell) list \<Rightarrow> rng \<Rightarrow> ((string \<times> cell) list \<times> rng) \<times> pyerror option" where
  "for_each_cell value [] g = (([], g), None)"
| "for_each_cell value ((k, c) # rest) g =
     (case update_cell_calculations (c\<lparr>current := value\<rparr>) g of
        ((c', g'), Some e) \<Rightarrow> (((k, c') # rest, g'), Some e)
      | ((c', g'), None) \<Rightarrow>
          (case for_each_cell value rest g' of
             ((rest', g''), e) \<Rightarrow> (((k, c') # rest', g''), e)))"

definition set_all_currents :: "real \<Rightarrow> session \<Rightarrow> session \<times> pyerror option" where
  "set_all_currents value s =
     (case for_each_cell value (cells_data s) (random_state s) of
        ((cells, g), e) \<Rightarrow> (s\<lparr>cells_data := cells, random_state := g\<rparr>, e))"

text \<open>
  \<^verbatim>\<open>st.number_input(label, min_value, max_value, value, ...)\<close> is a function of
  Streamlit, not of the repository. The model keeps what its callers depend on: the
  call raises when the default \<open>value\<close> lies outside \<open>[min_value, max_value]\<close>;
  otherwise it returns the number that the widget holds, which is the default until
  the user enters a number of the range. An entry outside the range is refused by the
  widget: it is never returned, and the widget goes on holding what it held. \<open>entry\<close>
  is what the user typed, if anything.
\<close>

definition number_input :: "real \<Rightarrow> real \<Rightarrow> real \<Rightarrow> real option \<Rightarrow> pyerror + real" where
  "number_input min_value max_value value entry =
     (if value < min_value \<or> max_value < value then Inl StreamlitAPIException
      else case entry of
             None \<Rightarrow> Inr value
           | Some x \<Rightarrow> if min_value \<le> x \<and> x \<le> max_value then Inr x else Inr value)"

text \<open>
  One number input of the individual cell controls of \<^verbatim>\<open>control_panel\<close>, for the cell
  \<open>cell_key\<close>: the widget is bounded by -10.0 and 10.0, its default is the stored
  current, and the cell is written only when the widget returns another number.
\<close>

definition individual_cell_control :: "string \<Rightarrow> real option \<Rightarrow> session \<Rightarrow> session \<times> pyerror option" where
  "individual_cell_control cell_key entry s =
     (case map_of (cells_data s) cell_key of
        None \<Rightarrow> (s, Some KeyError)
      | Some c \<Rightarrow>
          (case number_input (- 10) 10 (current c) entry of
             Inl e \<Rightarrow> (s, Some e)
           | Inr current_val \<Rightarrow>
               if current_val \<noteq> current c then
                 (case update_cell_calculations (c\<lparr>current := current_val\<rparr>) (random_state s) of
                    ((c', g'), e) \<Rightarrow>
                      (s\<lparr>cells_data :=
                           map (\<lambda>(k, x). if k = cell_key then (k, c') else (k, x)) (cells_data s),
                         random_state := g'\<rparr>, e))
               else (s, None)))"

subsection \<open>The task sequencer\<close>

definition apply_cc_cv_task :: "task \<Rightarrow> session \<Rightarrow> session \<times> pyerror option" where
  "apply_cc_cv_task task_data s = set_all_currents (get_cc_current task_data 2.0) s"

definition apply_idle_task :: "task \<Rightarrow> session \<Rightarrow> session \<times> pyerror option" where
  "apply_idle_task task_data s = set_all_currents 0.0 s"

definition apply_cc_cd_task :: "task \<Rightarrow> session \<Rightarrow> session \<times> pyerror option" where
  "apply_cc_cd_task task_data s = set_all_currents (get_cc_current task_data (- 2.0)) s"

definition execute_current_task :: "int \<Rightarrow> session \<Rightarrow> session \<times> pyerror option" where
  "execute_current_task now s =
     (if current_task_index s \<ge> length (tasks_data s) then
        (s\<lparr>task_running := False, current_task_index := 0\<rparr>, None)
      else
        (let task_key = ''task_'' @ str_nat (current_task_index s + 1);
             task_data = tasks_data s ! current_task_index s
         in case (case task_data of
                    CC_CV _ _ _ _ _ \<Rightarrow> apply_cc_cv_task task_data s
                  | IDLE _ \<Rightarrow> apply_idle_task task_data s
                  | CC_CD _ _ _ _ \<Rightarrow> apply_cc_cd_task task_data s) of
              (s', Some e) \<Rightarrow> (s', Some e)
            | (s', None) \<Rightarrow>
                (s'\<lparr>task_history := task_history s' @
                      [\<lparr>entry_timestamp = now div 1000000, entry_task = task_key,
                        entry_type = task_type task_data, entry_status = ''started''\<rparr>]\<rparr>,
                 None)))"

definition start_task_sequence :: "int \<Rightarrow> session \<Rightarrow> session \<times> pyerror option" where
  "start_task_sequence now s =
     (if tasks_data s = [] then (s, None)
      else execute_current_task now
             (s\<lparr>task_running := True, current_task_index := 0, task_start_time := Some now\<rparr>))"

definition stop_all_tasks :: "session \<Rightarrow> session \<times> pyerror option" where
  "stop_all_tasks s = set_all_currents 0.0 (s\<lparr>task_running := False, current_task_index := 0\<rparr>)"

text \<open>
  The \<^verbatim>\<open>seconds\<close> attribute of the difference of two instants: a \<^verbatim>\<open>timedelta\<close> is
  normalised to days, seconds of \<open>[0, 86400)\<close> and microseconds.
\<close>

definition timedelta_seconds :: "int \<Rightarrow> int" where
  "timedelta_seconds d = (d mod 86400000000) div 1000000"

text \<open>The task progression at the head of \<^verbatim>\<open>main\<close>, run at the instant \<open>now\<close>.\<close>

definition main_tick :: "int \<Rightarrow> session \<Rightarrow> session \<times> pyerror option" where
  "main_tick now s =
     (if task_running s then
        (case task_start_time s of
           None \<Rightarrow> (s, None)
         | Some t0 \<Rightarrow>
             (let elapsed = timedelta_seconds (now - t0);
                  duration =
                    (if current_task_index s < length (tasks_data s)
                     then time_seconds (tasks_data s ! current_task_index s) else 60)
              in if elapsed \<ge> duration then
                   (let s1 = s\<lparr>current_task_index := current_task_index s + 1,
                                task_start_time := Some now\<rparr>
                    in if current_task_index s1 \<ge> length (tasks_data s1) then
                         (s1\<lparr>task_running := False, current_task_index := 0\<rparr>, None)
                       else execute_current_task now s1)
                 else (s, None)))
      else (s, None))"

text \<open>
  The task control buttons of \<^verbatim>\<open>task_management\<close>. The page returns at once
  before the setup is complete, and the buttons are drawn only when a sequence is
  saved; the start button is disabled while a sequence runs, the pause button while
  none does, and a click on a disabled button does nothing.
\<close>

datatype button = StartTaskSequence | PauseTasks | StopTasks

definition task_control :: "button \<Rightarrow> int \<Rightarrow> session \<Rightarrow> session \<times> pyerror option" where
  "task_control b now s =
     (if \<not> setup_complete s then (s, None)
      else if tasks_data s = [] then (s, None)
      else case b of
             StartTaskSequence \<Rightarrow>
               if task_running s then (s, None) else start_task_sequence now s
           | PauseTasks \<Rightarrow>
               if \<not> task_running s then (s, None) else (s\<lparr>task_running := False\<rparr>, None)
           | StopTasks \<Rightarrow> stop_all_tasks s)"

section \<open>Notions used in the statements\<close>

text \<open>The voltage after the step of \<^verbatim>\<open>update_cell_calculations\<close>.\<close>

definition voltage_step :: "cell \<Rightarrow> real" where
  "voltage_step c =
     (if current c > 0 then min (max_voltage c) (voltage c + min 0.1 (current c * 0.02))
      else if current c < 0 then max (min_voltage c) (voltage c - min 0.1 (\<bar>current c\<bar> * 0.02))
      else voltage c)"

text \<open>The value of the state of charge where the division is defined.\<close>

definition soc_value :: "real \<Rightarrow> real \<Rightarrow> real \<Rightarrow> real" where
  "soc_value v min_v max_v = max 0 (min 100 (((v - min_v) / (max_v - min_v)) * 100))"

text \<open>
  The invariant of a cell of the data model: the bounds are ordered, the voltage lies
  between them and the stored state of charge is the one of the stored voltage.
\<close>

definition cell_inv :: "cell \<Rightarrow> bool" where
  "cell_inv c =
     (min_voltage c < max_voltage c \<and> min_voltage c \<le> voltage c \<and> voltage c \<le> max_voltage c \<and>
      calculate_soc_percentage (voltage c) (min_voltage c) (max_voltage c) = Inr (soc c))"

text \<open>A pool none of whose cells makes the state of charge divide by zero.\<close>

definition pool_ok :: "(string \<times> cell) list \<Rightarrow> bool" where
  "pool_ok cells = list_all (\<lambda>(k, c). min_voltage c \<noteq> max_voltage c) cells"

text \<open>\<open>n\<close> update steps in a row, stopping at the first exception.\<close>

fun repeat_update :: "nat \<Rightarrow> cell \<Rightarrow> rng \<Rightarrow> (cell \<times> rng) \<times> pyerror option" where
  "repeat_update 0 c g = ((c, g), None)"
| "repeat_update (Suc n) c g =
     (case update_cell_calculations c g of
        ((c', g'), None) \<Rightarrow> repeat_update n c' g'
      | ((c', g'), Some e) \<Rightarrow> ((c', g'), Some e))"

text \<open>The dispatch of \<^verbatim>\<open>execute_current_task\<close> on the task type, and the current it sets.\<close>

definition apply_task :: "task \<Rightarrow> session \<Rightarrow> session \<times> pyerror option" where
  "apply_task task_data s =
     (case task_data of
        CC_CV _ _ _ _ _ \<Rightarrow> apply_cc_cv_task task_data s
      | IDLE _ \<Rightarrow> apply_idle_task task_data s
      | CC_CD _ _ _ _ \<Rightarrow> apply_cc_cd_task task_data s)"

fun task_target :: "task \<Rightarrow> real" where
  "task_target (CC_CV cc _ _ _ _) = cc"
| "task_target (IDLE _) = 0"
| "task_target (CC_CD cc _ _ _) = cc"

text \<open>The entries of the chemistry table that a cell carries.\<close>

definition specs_of :: "cell \<Rightarrow> cell_specs" where
  "specs_of c =
     \<lparr>spec_nominal_voltage = nominal_voltage c, spec_min_voltage = min_voltage c,
      spec_max_voltage = max_voltage c, spec_nominal_capacity = nominal_capacity c\<rparr>"

subsection \<open>Example data\<close>

definition demo_rng :: rng where
  "demo_rng = (\<lambda>n. 1 / 2)"

definition demo_cell :: cell where
  "demo_cell =
     \<lparr>voltage = 3.2, current = 0, temp = 30, capacity = 0, min_voltage = 2.8,
      max_voltage = 3.6, nominal_voltage = 3.2, nominal_capacity = 100, soc = 50,
      cell_type = ''LFP''\<rparr>"

definition demo_session :: session where
  "demo_session =
     \<lparr>cells_data = [(''cell_1_lfp'', demo_cell)], cell_types = [''LFP''],
      setup_complete = True, tasks_data = [CC_CV 2 4 2 10 10, IDLE 5],
      task_running = False, current_task_index = 0, task_start_time = None,
      task_history = [], random_state = demo_rng\<rparr>"

definition demo_running :: session where
  "demo_running =
     demo_session\<lparr>cells_data := [(''cell_1_lfp'', demo_cell\<lparr>current := 2, capacity := 6.4\<rparr>)],
       task_running := True, current_task_index := 1, task_start_time := Some 3000000\<rparr>"

text \<open>The example session after a task has set the current of its cell to 11 A.\<close>

definition demo_overdriven :: session where
  "demo_overdriven =
     demo_session\<lparr>cells_data := [(''cell_1_lfp'', demo_cell\<lparr>current := 11, capacity := 35.2\<rparr>)]\<rparr>"

text \<open>
  The run of the example sequence on the example session: started at 0 s, with ticks at
  10 s, 14 s and 15 s.
\<close>

definition demo_started :: session where
  "demo_started = fst (start_task_sequence 0 demo_session)"

definition demo_tick10 :: session where
  "demo_tick10 = fst (main_tick 10000000 demo_started)"

definition demo_tick14 :: session where
  "demo_tick14 = fst (main_tick 14000000 demo_tick10)"

definition demo_tick15 :: session where
  "demo_tick15 = fst (main_tick 15000000 demo_tick14)"

section \<open>Properties of the cell model\<close>

lemma round_half_even_0: "round_half_even 0 = 0"
  by (simp add: round_half_even_def)

lemma py_round_0: "py_round 0 n = 0"
  by (simp add: py_round_def round_half_even_0)

lemma calculate_soc_percentage_value:
  "calculate_soc_percentage v min_v max_v =
     (if min_v = max_v then Inl ZeroDivisionError else Inr (soc_value v min_v max_v))"
  by (auto simp: calculate_soc_percentage_def soc_value_def)

lemma update_cell_calculations_unfold:
  "update_cell_calculations c g =
     (let c2 = c\<lparr>capacity := py_round (voltage c * \<bar>current c\<bar>) 2, voltage := voltage_step c\<rparr>
      in if min_voltage c = max_voltage c then ((c2, g), Some ZeroDivisionError)
         else
           (let c3 = c2\<lparr>soc := soc_value (voltage_step c) (min_voltage c) (max_voltage c)\<rparr>
            in if \<bar>current c\<bar> > 1
               then ((c3\<lparr>temp := max 20 (min 60 (temp c + (- 1 + 3 * g 0)))\<rparr>, \<lambda>n. g (Suc n)), None)
               else ((c3, g), None)))"
  by (cases "0 < current c"; cases "current c < 0"; cases "min_voltage c = max_voltage c";
      cases "\<bar>current c\<bar> > 1")
    (simp_all add: update_cell_calculations_def calculate_soc_percentage_value voltage_step_def
      uniform_def Let_def)

lemma update_cell_calculations_error:
  "snd (update_cell_calculations c g) =
     (if min_voltage c = max_voltage c then Some ZeroDivisionError else None)"
  by (simp add: update_cell_calculations_unfold Let_def)

lemma update_cell_calculations_frame:
  "min_voltage (fst (fst (update_cell_calculations c g))) = min_voltage c"
  "max_voltage (fst (fst (update_cell_calculations c g))) = max_voltage c"
  "current (fst (fst (update_cell_calculations c g))) = current c"
  "voltage (fst (fst (update_cell_calculations c g))) = voltage_step c"
  "capacity (fst (fst (update_cell_calculations c g))) = py_round (voltage c * \<bar>current c\<bar>) 2"
  by (simp_all add: update_cell_calculations_unfold Let_def)

lemma update_cell_calculations_soc:
  "min_voltage c \<noteq> max_voltage c \<Longrightarrow>
   calculate_soc_percentage (voltage_step c) (min_voltage c) (max_voltage c) =
     Inr (soc (fst (fst (update_cell_calculations c g))))"
  by (simp add: update_cell_calculations_unfold calculate_soc_percentage_value Let_def)

lemma charge_range:
  fixes m :: real
  assumes "m \<le> v" and "v \<le> M" and "0 \<le> d"
  shows "m \<le> min M (v + d) \<and> min M (v + d) \<le> M"
  using assms by (simp add: min_def)

lemma discharge_range:
  fixes m :: real
  assumes "m \<le> v" and "v \<le> M" and "0 \<le> d"
  shows "m \<le> max m (v - d) \<and> max m (v - d) \<le> M"
  using assms by (simp add: max_def)

lemma voltage_step_range:
  assumes "min_voltage c \<le> voltage c" and "voltage c \<le> max_voltage c"
  shows "min_voltage c \<le> voltage_step c \<and> voltage_step c \<le> max_voltage c"
proof -
  consider "current c > 0" | "current c < 0" | "current c = 0"
    by linarith
  then show ?thesis
  proof cases
    case 1
    then have "0 \<le> min 0.1 (current c * 0.02)" by simp
    from charge_range [OF assms this] have
      "min_voltage c \<le> min (max_voltage c) (voltage c + min 0.1 (current c * 0.02)) \<and>
       min (max_voltage c) (voltage c + min 0.1 (current c * 0.02)) \<le> max_voltage c" .
    moreover from 1 have
      "voltage_step c = min (max_voltage c) (voltage c + min 0.1 (current c * 0.02))"
      unfolding voltage_step_def by (rule if_P)
    ultimately show ?thesis by (simp only:)
  next
    case 2
    then have "0 \<le> min 0.1 (\<bar>current c\<bar> * 0.02)" by simp
    from discharge_range [OF assms this] have
      "min_voltage c \<le> max (min_voltage c) (voltage c - min 0.1 (\<bar>current c\<bar> * 0.02)) \<and>
       max (min_voltage c) (voltage c - min 0.1 (\<bar>current c\<bar> * 0.02)) \<le> max_voltage c" .
    moreover from 2 have "\<not> current c > 0" by simp
    with 2 have
      "voltage_step c = max (min_voltage c) (voltage c - min 0.1 (\<bar>current c\<bar> * 0.02))"
      unfolding voltage_step_def by (simp only: if_False if_True)
    ultimately show ?thesis by (simp only:)
  next
    case 3
    with assms show ?thesis by (simp add: voltage_step_def)
  qed
qed

lemma update_cell_calculations_inv:
  assumes "cell_inv c"
  shows "cell_inv (fst (fst (update_cell_calculations (c\<lparr>current := v\<rparr>) g)))"
    and "snd (update_cell_calculations (c\<lparr>current := v\<rparr>) g) = None"
proof -
  let ?c = "c\<lparr>current := v\<rparr>"
  from assms have ne: "min_voltage ?c \<noteq> max_voltage ?c"
    and lo: "min_voltage ?c \<le> voltage ?c" and hi: "voltage ?c \<le> max_voltage ?c"
    by (simp_all add: cell_inv_def)
  from voltage_step_range [OF lo hi] update_cell_calculations_soc [OF ne, of g] assms
  show "cell_inv (fst (fst (update_cell_calculations ?c g)))"
    by (simp add: cell_inv_def update_cell_calculations_frame)
  from ne show "snd (update_cell_calculations ?c g) = None"
    by (simp add: update_cell_calculations_error)
qed

lemma update_cell_calculations_idle:
  assumes "calculate_soc_percentage (voltage c) (min_voltage c) (max_voltage c) = Inr (soc c)"
    and "current c = 0"
  shows "update_cell_calculations c g = ((c\<lparr>capacity := 0\<rparr>, g), None)"
proof -
  from assms(1) have ne: "min_voltage c \<noteq> max_voltage c"
    and s: "soc_value (voltage c) (min_voltage c) (max_voltage c) = soc c"
    by (auto simp: calculate_soc_percentage_value split: if_splits)
  from assms(2) have v: "voltage_step c = voltage c"
    by (simp add: voltage_step_def)
  show ?thesis
    using ne assms(2) by (simp add: update_cell_calculations_unfold Let_def v s py_round_0)
qed

lemma round_half_even_bounds:
  assumes "of_int a \<le> y" and "y \<le> of_int b"
  shows "a \<le> round_half_even y \<and> round_half_even y \<le> b"
proof -
  let ?f = "\<lfloor>y\<rfloor>"
  from assms(1) have lo: "a \<le> ?f" by (simp add: le_floor_iff)
  have up: "round_half_even y \<le> b"
  proof (cases "y = of_int b")
    case True
    then show ?thesis by (simp add: round_half_even_def)
  next
    case False
    with assms(2) have "y < of_int b" by simp
    then have "?f < b" by (simp add: floor_less_iff)
    then show ?thesis by (simp add: round_half_even_def Let_def)
  qed
  have "?f \<le> round_half_even y" by (simp add: round_half_even_def Let_def)
  with lo up show ?thesis by simp
qed

lemma py_round_bounds:
  assumes "of_int a / 10 ^ n \<le> x" and "x \<le> of_int b / 10 ^ n"
  shows "of_int a / 10 ^ n \<le> py_round x n \<and> py_round x n \<le> of_int b / 10 ^ n"
proof -
  from assms have "of_int a \<le> x * 10 ^ n" "x * 10 ^ n \<le> of_int b"
    by (simp_all add: field_simps)
  from round_half_even_bounds [OF this] show ?thesis
    by (simp add: py_round_def divide_le_cancel)
qed

lemma uniform_bounds:
  assumes "a \<le> b" and "0 \<le> g 0" and "g 0 < 1"
  shows "a \<le> fst (uniform a b g) \<and> fst (uniform a b g) \<le> b"
proof -
  from assms have "0 \<le> (b - a) * g 0" by simp
  moreover from assms have "(b - a) * g 0 \<le> (b - a) * 1"
    by (intro mult_left_mono) simp_all
  ultimately show ?thesis by (simp add: uniform_def)
qed

lemma rng_ok_uniform: "rng_ok g \<Longrightarrow> rng_ok (snd (uniform a b g))"
  by (simp add: rng_ok_def uniform_def)

subsection \<open>Rounded arithmetic\<close>

lemma round_half_even_error: "\<bar>of_int (round_half_even y) - y\<bar> \<le> 1 / 2"
proof -
  have "of_int \<lfloor>y\<rfloor> \<le> y" "y < of_int \<lfloor>y\<rfloor> + 1" by linarith+
  then show ?thesis
    by (auto simp: round_half_even_def Let_def)
qed

lemma fl64_ok: "fl_ok fl64"
  unfolding fl_ok_def
proof
  fix x :: real
  show "\<bar>fl64 x - x\<bar> \<le> \<bar>x\<bar> / 2 ^ 53"
  proof (cases "x = 0")
    case True
    then show ?thesis by (simp add: fl64_def)
  next
    case False
    define k where "k = \<lfloor>log 2 \<bar>x\<bar>\<rfloor>"
    define ulp :: real where "ulp = 2 powr (of_int (k - 52))"
    have pos: "0 < ulp" by (simp add: ulp_def)
    have "of_int k \<le> log 2 \<bar>x\<bar>" by (simp add: k_def)
    then have "2 powr (of_int k) \<le> 2 powr (log 2 \<bar>x\<bar>)" by simp
    with False have low: "2 powr (of_int k) \<le> \<bar>x\<bar>" by simp
    have ulp: "ulp = 2 powr (of_int k) / 2 ^ 52"
      by (simp add: ulp_def powr_diff)
    have "fl64 x - x = (of_int (round_half_even (x / ulp)) - x / ulp) * ulp"
      using False pos by (simp add: fl64_def k_def ulp_def Let_def algebra_simps)
    then have "\<bar>fl64 x - x\<bar> = \<bar>of_int (round_half_even (x / ulp)) - x / ulp\<bar> * ulp"
      using pos by (simp add: abs_mult)
    also have "\<dots> \<le> 1 / 2 * ulp"
      using pos round_half_even_error [of "x / ulp"] by (intro mult_right_mono) simp_all
    also have "\<dots> = 2 powr (of_int k) / 2 ^ 53"
      by (simp add: ulp)
    also have "\<dots> \<le> \<bar>x\<bar> / 2 ^ 53"
      using low by (simp add: divide_right_mono)
    finally show ?thesis .
  qed
qed

lemma uniform_fl_exact: "uniform_fl (\<lambda>x. x) a b g = uniform a b g"
  by (simp add: uniform_fl_def uniform_def)

lemma calculate_soc_percentage_fl_exact:
  "calculate_soc_percentage_fl (\<lambda>x. x) v min_v max_v = calculate_soc_percentage v min_v max_v"
  by (simp add: calculate_soc_percentage_fl_def calculate_soc_percentage_def)

lemma update_cell_calculations_fl_exact:
  "update_cell_calculations_fl (\<lambda>x. x) c g = update_cell_calculations c g"
  unfolding update_cell_calculations_fl_def update_cell_calculations_def
    uniform_fl_exact calculate_soc_percentage_fl_exact
  by (rule refl)

lemma update_cell_calculations_fl_charging:
  assumes "current c > 1" and "fl (max_voltage c - min_voltage c) \<noteq> 0"
  shows "update_cell_calculations_fl fl c g =
     ((c\<lparr>capacity := fl (py_round (fl (voltage c * current c)) 2),
         voltage := min (max_voltage c)
           (fl (voltage c + min (fl 0.1) (fl (current c * fl 0.02)))),
         soc := max 0 (min 100 (fl (fl (fl (min (max_voltage c)
             (fl (voltage c + min (fl 0.1) (fl (current c * fl 0.02)))) - min_voltage c)
             / fl (max_voltage c - min_voltage c)) * 100))),
         temp := max 20 (min 60 (fl (temp c + fl (- 1 + fl (fl 3 * g 0)))))\<rparr>,
       \<lambda>n. g (Suc n)), None)"
proof -
  from assms(1) have "0 < current c" "\<bar>current c\<bar> = current c" by simp_all
  with assms show ?thesis
    by (simp add: update_cell_calculations_fl_def calculate_soc_percentage_fl_def
        uniform_fl_def Let_def)
qed

lemma round_half_even_near:
  assumes "\<bar>y - of_int k\<bar> < 1 / 2"
  shows "round_half_even y = k"
proof (cases "of_int k \<le> y")
  case True
  from assms True have "y < of_int k + 1" by linarith
  with True have "\<lfloor>y\<rfloor> = k" by (intro floor_unique)
  moreover from assms True have "y - of_int k < 1 / 2" by linarith
  ultimately show ?thesis by (simp add: round_half_even_def)
next
  case False
  from assms False have b: "of_int k - 1 \<le> y" "y < of_int k" by linarith+
  then have "of_int (k - 1) \<le> y" "y < of_int (k - 1) + 1" by simp_all
  then have f: "\<lfloor>y\<rfloor> = k - 1" by (intro floor_unique)
  from assms False have "1 / 2 < y - (of_int k - 1)" by linarith
  then have "\<not> y - of_int (k - 1) < 1 / 2" "1 / 2 < y - of_int (k - 1)" by simp_all
  with f show ?thesis by (simp add: round_half_even_def)
qed

lemma py_round_near:
  assumes "\<bar>x - of_int k / 10 ^ n\<bar> < 1 / (2 * 10 ^ n)"
  shows "py_round x n = of_int k / 10 ^ n"
proof -
  have "x * 10 ^ n - of_int k = (x - of_int k / 10 ^ n) * 10 ^ n"
    by (simp add: algebra_simps)
  then have "\<bar>x * 10 ^ n - of_int k\<bar> = \<bar>x - of_int k / 10 ^ n\<bar> * 10 ^ n"
    by (simp add: abs_mult)
  also from assms have "\<dots> < 1 / (2 * 10 ^ n) * 10 ^ n"
    by (intro mult_strict_right_mono) simp_all
  finally have "\<bar>x * 10 ^ n - of_int k\<bar> < 1 / 2" by simp
  then show ?thesis by (simp add: py_round_def round_half_even_near)
qed

lemma fl_near:
  assumes "fl_ok fl" and "\<bar>x\<bar> \<le> 100"
  shows "\<bar>fl x - x\<bar> \<le> 1 / 10000000000000"
proof -
  from assms(1) have "\<bar>fl x - x\<bar> \<le> \<bar>x\<bar> / 2 ^ 53" by (simp add: fl_ok_def)
  also from assms(2) have "\<dots> \<le> 100 / 2 ^ 53" by (simp add: divide_right_mono)
  also have "\<dots> \<le> 1 / 10000000000000" by simp
  finally show ?thesis .
qed

lemma quotient_near:
  fixes a b :: real
  assumes "\<bar>a - 1 / 2\<bar> \<le> 10 / 10000000000000" and "\<bar>b - 4 / 5\<bar> \<le> 3 / 10000000000000"
  shows "\<bar>a / b - 5 / 8\<bar> \<le> 20 / 10000000000000"
proof -
  from assms(2) have b: "0 < b" by linarith
  have up: "(5 / 8 + 20 / 10000000000000) * b = 5 / 8 * b + 20 / 10000000000000 * b"
    and lo: "(5 / 8 - 20 / 10000000000000) * b = 5 / 8 * b - 20 / 10000000000000 * b"
    by (simp_all only: distrib_right left_diff_distrib)
  have "a \<le> 5 / 8 * b + 20 / 10000000000000 * b"
    using assms by linarith
  with b have "a / b \<le> 5 / 8 + 20 / 10000000000000"
    by (simp only: pos_divide_le_eq up)
  moreover have "5 / 8 * b - 20 / 10000000000000 * b \<le> a"
    using assms by linarith
  with b have "5 / 8 - 20 / 10000000000000 \<le> a / b"
    by (simp only: pos_le_divide_eq lo)
  ultimately show ?thesis by linarith
qed

text \<open>
  Evaluating \<open>fl64\<close> on a number scaled into \<open>[2\<^sup>5\<^sup>2, 2\<^sup>5\<^sup>3)\<close>, and with it the example of
  the specification in the arithmetic of doubles: the voltage left is the double
  3.3000000000000003 and the state of charge the double 62.500000000000036.
\<close>

lemma fl64_scaled:
  fixes x :: real and j :: nat
  assumes "2 ^ 52 \<le> x * 2 ^ j" and "x * 2 ^ j < 2 ^ 53"
  shows "fl64 x = of_int (round_half_even (x * 2 ^ j)) / 2 ^ j"
proof -
  have "(0 :: real) < 2 ^ 52" by simp
  also note assms(1)
  finally have pos: "0 < x" by (simp add: zero_less_mult_iff)
  have lo: "2 powr (52 - real j) \<le> x"
    using assms(1) by (simp add: powr_diff powr_realpow field_simps)
  have hi: "x < 2 powr (52 - real j + 1)"
    using assms(2) by (simp add: powr_diff powr_add powr_realpow field_simps)
  have "\<lfloor>log 2 x\<rfloor> = 52 - int j"
    using pos lo hi by (subst floor_log_eq_powr_iff) simp_all
  then have "\<lfloor>log 2 \<bar>x\<bar>\<rfloor> - 52 = - int j" using pos by simp
  moreover have "(2 :: real) powr (of_int (- int j)) = 1 / 2 ^ j"
    by (simp add: powr_minus powr_realpow inverse_eq_divide)
  ultimately show ?thesis
    using pos by (simp add: fl64_def Let_def)
qed

lemma update_example_doubles:
  "update_cell_calculations_fl fl64
     (c\<lparr>voltage := fl64 3.2, min_voltage := fl64 2.8, max_voltage := fl64 3.6, current := 5\<rparr>) g =
   ((c\<lparr>voltage := 7430939385161319 / 2 ^ 51, min_voltage := fl64 2.8, max_voltage := fl64 3.6,
       current := 5, capacity := 16, soc := 8796093022208005 / 2 ^ 47,
       temp := max 20 (min 60 (fl64 (temp c + fl64 (- 1 + fl64 (fl64 3 * g 0)))))\<rparr>,
     \<lambda>n. g (Suc n)), None)"
proof -
  let ?c = "c\<lparr>voltage := fl64 3.2, min_voltage := fl64 2.8, max_voltage := fl64 3.6, current := 5\<rparr>"
  have V: "fl64 3.2 = 7205759403792794 / 2 ^ 51"
    by (subst fl64_scaled [where j = 51]) (simp_all add: round_half_even_def)
  have MN: "fl64 2.8 = 6305039478318694 / 2 ^ 51"
    by (subst fl64_scaled [where j = 51]) (simp_all add: round_half_even_def)
  have MX: "fl64 3.6 = 8106479329266893 / 2 ^ 51"
    by (subst fl64_scaled [where j = 51]) (simp_all add: round_half_even_def)
  have c1: "fl64 0.1 = 7205759403792794 / 2 ^ 56"
    by (subst fl64_scaled [where j = 56]) (simp_all add: round_half_even_def)
  have c2: "fl64 0.02 = 5764607523034235 / 2 ^ 58"
    by (subst fl64_scaled [where j = 58]) (simp_all add: round_half_even_def)
  have p: "fl64 (7205759403792794 / 2 ^ 51 * 5) = 16"
    by (subst fl64_scaled [where j = 48]) (simp_all add: round_half_even_def)
  have r16: "py_round 16 2 = 16"
    by (simp add: py_round_def round_half_even_def)
  have f16: "fl64 16 = 16"
    by (subst fl64_scaled [where j = 48]) (simp_all add: round_half_even_def)
  have m: "fl64 (5 * (5764607523034235 / 2 ^ 58)) = 7205759403792794 / 2 ^ 56"
    by (subst fl64_scaled [where j = 56]) (simp_all add: round_half_even_def)
  have w: "fl64 (7205759403792794 / 2 ^ 51 + 7205759403792794 / 2 ^ 56) = 7430939385161319 / 2 ^ 51"
    by (subst fl64_scaled [where j = 51]) (simp_all add: round_half_even_def)
  have a: "fl64 (7430939385161319 / 2 ^ 51 - 6305039478318694 / 2 ^ 51) = 4503599627370500 / 2 ^ 53"
    by (subst fl64_scaled [where j = 53]) (simp_all add: round_half_even_def)
  have b: "fl64 (8106479329266893 / 2 ^ 51 - 6305039478318694 / 2 ^ 51) = 7205759403792796 / 2 ^ 53"
    by (subst fl64_scaled [where j = 53]) (simp_all add: round_half_even_def)
  have q: "fl64 (4503599627370500 / 2 ^ 53 / (7205759403792796 / 2 ^ 53)) = 5629499534213123 / 2 ^ 53"
    by (subst fl64_scaled [where j = 53]) (simp_all add: round_half_even_def)
  have r: "fl64 (5629499534213123 / 2 ^ 53 * 100) = 8796093022208005 / 2 ^ 47"
    by (subst fl64_scaled [where j = 47]) (simp_all add: round_half_even_def)
  have P: "fl64 (fl64 3.2 * 5) = 16"
    unfolding V by (rule p)
  have CAP: "fl64 (py_round 16 2) = 16"
    unfolding r16 by (rule f16)
  have M: "fl64 (5 * fl64 0.02) = fl64 0.1"
    unfolding c2 c1 by (rule m)
  have W: "fl64 (fl64 3.2 + fl64 0.1) = 7430939385161319 / 2 ^ 51"
    unfolding V c1 by (rule w)
  have VV: "min (fl64 3.6) (7430939385161319 / 2 ^ 51) = 7430939385161319 / 2 ^ 51"
    unfolding MX by simp
  have A: "fl64 (7430939385161319 / 2 ^ 51 - fl64 2.8) = 4503599627370500 / 2 ^ 53"
    unfolding MN by (rule a)
  have B: "fl64 (fl64 3.6 - fl64 2.8) = 7205759403792796 / 2 ^ 53"
    unfolding MX MN by (rule b)
  have S: "max 0 (min 100 (8796093022208005 / 2 ^ 47 :: real)) = 8796093022208005 / 2 ^ 47"
    by simp
  have sel: "voltage ?c = fl64 3.2" "min_voltage ?c = fl64 2.8" "max_voltage ?c = fl64 3.6"
    "current ?c = 5" "temp ?c = temp c"
    by simp_all
  have c5: "1 < current ?c" by simp
  have b0: "fl64 (max_voltage ?c - min_voltage ?c) \<noteq> 0"
    unfolding sel B by simp
  show ?thesis
    unfolding update_cell_calculations_fl_charging [where c = ?c and fl = fl64 and g = g, OF c5 b0]
    by (simp only: sel P CAP M min.idem W VV A B q r S) simp
qed

section \<open>Properties of the pool and of the sequencer\<close>

lemma for_each_cell_ok:
  assumes "pool_ok cs"
  shows "snd (for_each_cell v cs g) = None \<and>
         map fst (fst (fst (for_each_cell v cs g))) = map fst cs \<and>
         pool_ok (fst (fst (for_each_cell v cs g))) \<and>
         list_all (\<lambda>(k, c). current c = v) (fst (fst (for_each_cell v cs g)))"
  using assms
proof (induction cs arbitrary: g)
  case Nil
  show ?case by (simp add: pool_ok_def)
next
  case (Cons kc cs)
  obtain k c where kc: "kc = (k, c)" by (cases kc)
  obtain c' g' e where u: "update_cell_calculations (c\<lparr>current := v\<rparr>) g = ((c', g'), e)"
    by (metis prod.collapse)
  have ok: "min_voltage c \<noteq> max_voltage c" "pool_ok cs"
    using Cons.prems kc by (simp_all add: pool_ok_def)
  from update_cell_calculations_error [of "c\<lparr>current := v\<rparr>" g] u ok(1)
  have e: "e = None" by simp
  from update_cell_calculations_frame [of "c\<lparr>current := v\<rparr>" g] u
  have c': "min_voltage c' = min_voltage c" "max_voltage c' = max_voltage c" "current c' = v"
    by simp_all
  obtain cs' g'' e' where r: "for_each_cell v cs g' = ((cs', g''), e')"
    by (metis prod.collapse)
  have eq: "for_each_cell v (kc # cs) g = (((k, c') # cs', g''), e')"
    by (simp add: kc u e r)
  from Cons.IH [OF ok(2), of g'] r ok(1) c' show ?case
    unfolding eq by (simp add: kc pool_ok_def)
qed

lemma for_each_cell_idle:
  assumes "pool_ok cs"
  shows "for_each_cell 0 cs g =
           ((map (\<lambda>(k, c). (k, c\<lparr>current := 0, capacity := 0,
                soc := soc_value (voltage c) (min_voltage c) (max_voltage c)\<rparr>)) cs, g), None)"
  using assms
proof (induction cs)
  case Nil
  show ?case by simp
next
  case (Cons kc cs)
  obtain k c where kc: "kc = (k, c)" by (cases kc)
  from Cons.prems kc have ok: "min_voltage c \<noteq> max_voltage c" "pool_ok cs"
    by (simp_all add: pool_ok_def)
  from ok(1) have "update_cell_calculations (c\<lparr>current := 0\<rparr>) g =
      ((c\<lparr>current := 0, capacity := 0,
          soc := soc_value (voltage c) (min_voltage c) (max_voltage c)\<rparr>, g), None)"
    by (simp add: update_cell_calculations_unfold Let_def voltage_step_def py_round_0)
  with Cons.IH [OF ok(2)] show ?case
    by (simp add: kc)
qed

lemma set_all_currents_frame:
  "task_running (fst (set_all_currents v s)) = task_running s"
  "current_task_index (fst (set_all_currents v s)) = current_task_index s"
  "task_start_time (fst (set_all_currents v s)) = task_start_time s"
  "tasks_data (fst (set_all_currents v s)) = tasks_data s"
  "task_history (fst (set_all_currents v s)) = task_history s"
  by (simp_all add: set_all_currents_def split_beta)

lemma set_all_currents_ok:
  assumes "pool_ok (cells_data s)"
  shows "snd (set_all_currents v s) = None"
    and "map fst (cells_data (fst (set_all_currents v s))) = map fst (cells_data s)"
    and "pool_ok (cells_data (fst (set_all_currents v s)))"
    and "list_all (\<lambda>(k, c). current c = v) (cells_data (fst (set_all_currents v s)))"
  using for_each_cell_ok [OF assms, of v "random_state s"]
  by (simp_all add: set_all_currents_def split_beta)

lemma set_all_currents_idle:
  assumes "pool_ok (cells_data s)"
  shows "set_all_currents 0 s =
           (s\<lparr>cells_data := map (\<lambda>(k, c). (k, c\<lparr>current := 0, capacity := 0,
                  soc := soc_value (voltage c) (min_voltage c) (max_voltage c)\<rparr>)) (cells_data s)\<rparr>,
            None)"
  by (simp add: set_all_currents_def for_each_cell_idle [OF assms])

lemma apply_task_current:
  "apply_task task_data s = set_all_currents (task_target task_data) s"
  by (cases task_data)
    (simp_all add: apply_task_def apply_cc_cv_task_def apply_idle_task_def apply_cc_cd_task_def)

lemma execute_current_task_unfold:
  assumes "current_task_index s < length (tasks_data s)"
  shows "execute_current_task now s =
           (let task_data = tasks_data s ! current_task_index s;
                r = apply_task task_data s
            in if snd r = None then
                 (fst r\<lparr>task_history := task_history (fst r) @
                      [\<lparr>entry_timestamp = now div 1000000,
                        entry_task = ''task_'' @ str_nat (current_task_index s + 1),
                        entry_type = task_type task_data, entry_status = ''started''\<rparr>]\<rparr>, None)
               else r)"
proof -
  obtain s' e where r: "apply_task (tasks_data s ! current_task_index s) s = (s', e)"
    by (cases "apply_task (tasks_data s ! current_task_index s) s")
  from assms r show ?thesis
    by (cases e) (simp_all add: execute_current_task_def apply_task_def Let_def)
qed

lemma execute_current_task_frame:
  assumes "current_task_index s < length (tasks_data s)"
  shows "task_running (fst (execute_current_task now s)) = task_running s"
    and "current_task_index (fst (execute_current_task now s)) = current_task_index s"
    and "task_start_time (fst (execute_current_task now s)) = task_start_time s"
    and "tasks_data (fst (execute_current_task now s)) = tasks_data s"
  by (simp_all add: execute_current_task_unfold [OF assms] Let_def apply_task_current
      set_all_currents_frame)

lemma execute_current_task_ok:
  assumes "current_task_index s < length (tasks_data s)" and "pool_ok (cells_data s)"
  shows "snd (execute_current_task now s) = None"
    and "task_history (fst (execute_current_task now s)) = task_history s @
          [\<lparr>entry_timestamp = now div 1000000,
            entry_task = ''task_'' @ str_nat (current_task_index s + 1),
            entry_type = task_type (tasks_data s ! current_task_index s),
            entry_status = ''started''\<rparr>]"
    and "pool_ok (cells_data (fst (execute_current_task now s)))"
    and "map fst (cells_data (fst (execute_current_task now s))) = map fst (cells_data s)"
    and "list_all (\<lambda>(k, c). current c = task_target (tasks_data s ! current_task_index s))
          (cells_data (fst (execute_current_task now s)))"
  using set_all_currents_ok [OF assms(2)]
  by (simp_all add: execute_current_task_unfold [OF assms(1)] Let_def apply_task_current
      set_all_currents_frame)

subsection \<open>Initialisation and the invariant of the cells\<close>

lemma get_cell_specs_ordered:
  "spec_min_voltage (get_cell_specs ct) < spec_max_voltage (get_cell_specs ct)"
  by (simp add: get_cell_specs_def)

lemma init_cells_total:
  "snd (init_cells idx types g) = None \<and>
   map (\<lambda>(k, c). specs_of c) (fst (fst (init_cells idx types g))) = map get_cell_specs types \<and>
   map (\<lambda>(k, c). cell_type c) (fst (fst (init_cells idx types g))) = map upper types \<and>
   map fst (fst (fst (init_cells idx types g))) =
     map (\<lambda>(i, ct). ''cell_'' @ str_nat i @ ''_'' @ lower ct) (zip [idx ..< idx + length types] types)"
proof (induction types arbitrary: idx g)
  case Nil
  show ?case by simp
next
  case (Cons ct cts)
  let ?specs = "get_cell_specs ct"
  let ?g2 = "snd (uniform 25 40 (snd (uniform (spec_min_voltage ?specs) (spec_max_voltage ?specs) g)))"
  from get_cell_specs_ordered [of ct]
  have ne: "spec_min_voltage ?specs \<noteq> spec_max_voltage ?specs" by simp
  have up: "[idx ..< idx + length (ct # cts)] = idx # [Suc idx ..< Suc idx + length cts]"
    by (simp add: upt_rec)
  from Cons.IH [of "Suc idx" ?g2] ne show ?case
    unfolding up
    by (simp add: Let_def split_beta calculate_soc_percentage_value specs_of_def)
qed

lemma initial_voltage_range:
  assumes "rng_ok g"
  shows "spec_min_voltage (get_cell_specs ct)
           \<le> py_round (fst (uniform (spec_min_voltage (get_cell_specs ct))
                  (spec_max_voltage (get_cell_specs ct)) g)) 2 \<and>
         py_round (fst (uniform (spec_min_voltage (get_cell_specs ct))
                  (spec_max_voltage (get_cell_specs ct)) g)) 2
           \<le> spec_max_voltage (get_cell_specs ct)"
proof -
  from assms have g: "0 \<le> g 0" "g 0 < 1" by (simp_all add: rng_ok_def)
  have u: "a \<le> fst (uniform a b g) \<and> fst (uniform a b g) \<le> b" if "a \<le> b" for a b
    using that g by (rule uniform_bounds)
  consider (lfp) "lower ct = ''lfp''" | (nmc) "lower ct \<noteq> ''lfp''" "lower ct = ''nmc''"
    | (other) "lower ct \<noteq> ''lfp''" "lower ct \<noteq> ''nmc''"
    by blast
  then show ?thesis
  proof cases
    case lfp
    from u [of "2.8" "3.6"] py_round_bounds [of 280 2 "fst (uniform 2.8 3.6 g)" 360] lfp
    show ?thesis by (simp add: get_cell_specs_def)
  next
    case nmc
    from u [of "3.2" "4.0"] py_round_bounds [of 320 2 "fst (uniform 3.2 4.0 g)" 400] nmc
    show ?thesis by (simp add: get_cell_specs_def)
  next
    case other
    from u [of "3.0" "4.2"] py_round_bounds [of 300 2 "fst (uniform 3.0 4.2 g)" 420] other
    show ?thesis by (simp add: get_cell_specs_def)
  qed
qed

lemma init_cells_inv:
  assumes "rng_ok g"
  shows "list_all (\<lambda>(k, c). cell_inv c \<and> current c = 0) (fst (fst (init_cells idx types g)))"
  using assms
proof (induction types arbitrary: idx g)
  case Nil
  show ?case by simp
next
  case (Cons ct cts)
  let ?specs = "get_cell_specs ct"
  let ?g1 = "snd (uniform (spec_min_voltage ?specs) (spec_max_voltage ?specs) g)"
  let ?g2 = "snd (uniform 25 40 ?g1)"
  from Cons.prems have "rng_ok ?g2" by (intro rng_ok_uniform)
  from Cons.IH [OF this, of "Suc idx"] initial_voltage_range [OF Cons.prems, of ct]
    get_cell_specs_ordered [of ct]
  show ?case
    by (simp add: Let_def split_beta calculate_soc_percentage_value cell_inv_def)
qed

lemma cell_inv_pool_ok:
  "list_all (\<lambda>(k, c). cell_inv c) cells \<Longrightarrow> pool_ok cells"
  by (induction cells) (auto simp: pool_ok_def cell_inv_def)

lemma for_each_cell_inv:
  assumes "list_all (\<lambda>(k, c). cell_inv c) cs"
  shows "list_all (\<lambda>(k, c). cell_inv c) (fst (fst (for_each_cell v cs g)))"
  using assms
proof (induction cs arbitrary: g)
  case Nil
  show ?case by simp
next
  case (Cons kc cs)
  obtain k c where kc: "kc = (k, c)" by (cases kc)
  obtain c' g' e where u: "update_cell_calculations (c\<lparr>current := v\<rparr>) g = ((c', g'), e)"
    by (metis prod.collapse)
  from Cons.prems kc have inv: "cell_inv c" "list_all (\<lambda>(k, c). cell_inv c) cs"
    by simp_all
  from update_cell_calculations_inv [OF inv(1), of v g] u
  have c': "cell_inv c'" "e = None" by simp_all
  obtain cs' g'' e' where r: "for_each_cell v cs g' = ((cs', g''), e')"
    by (metis prod.collapse)
  have eq: "for_each_cell v (kc # cs) g = (((k, c') # cs', g''), e')"
    by (simp add: kc u c' r)
  from Cons.IH [OF inv(2), of g'] r c' show ?case
    unfolding eq by simp
qed

lemma setup_cells_unfold:
  "setup_cells types s =
     (s\<lparr>cells_data := fst (fst (init_cells 1 types (random_state s))), cell_types := types,
         setup_complete := True, random_state := snd (fst (init_cells 1 types (random_state s)))\<rparr>,
      None)"
proof -
  obtain cells g e where r: "init_cells 1 types (random_state s) = ((cells, g), e)"
    by (metis prod.collapse)
  with init_cells_total [of 1 types "random_state s"] have "e = None" by simp
  with r show ?thesis by (simp add: setup_cells_def)
qed

lemma setup_cells_inv:
  assumes "rng_ok (random_state s)"
  shows "list_all (\<lambda>(k, c). cell_inv c \<and> current c = 0) (cells_data (fst (setup_cells types s)))"
  using init_cells_inv [OF assms, of 1 types] by (simp add: setup_cells_unfold)

lemma set_all_currents_inv:
  assumes "list_all (\<lambda>(k, c). cell_inv c) (cells_data s)"
  shows "list_all (\<lambda>(k, c). cell_inv c) (cells_data (fst (set_all_currents v s)))"
  using for_each_cell_inv [OF assms, of v "random_state s"]
  by (simp add: set_all_currents_def split_beta)

lemma map_of_replace:
  "map_of (map (\<lambda>(k, x). if k = key then (k, c') else (k, x)) cells) k' =
     (if k' = key then map_option (\<lambda>_. c') (map_of cells key) else map_of cells k')"
  by (induction cells) auto

subsection \<open>The number input of a cell\<close>

lemma number_input_refused:
  assumes "\<bar>x\<bar> > 10"
  shows "number_input (- 10) 10 v (Some x) =
           (if - 10 \<le> v \<and> v \<le> 10 then Inr v else Inl StreamlitAPIException)"
proof -
  from assms have "x < - 10 \<or> 10 < x" by linarith
  then show ?thesis
    unfolding number_input_def by auto
qed

lemma number_input_accepted:
  assumes "\<bar>x\<bar> \<le> 10" and "\<bar>v\<bar> \<le> 10"
  shows "number_input (- 10) 10 v (Some x) = Inr x"
proof -
  from assms have "- 10 \<le> x" "x \<le> 10" "- 10 \<le> v" "v \<le> 10" by linarith+
  then show ?thesis
    unfolding number_input_def by auto
qed

lemma individual_cell_control_widget:
  assumes "map_of (cells_data s) cell_key = Some c"
  shows "individual_cell_control cell_key entry s =
           (case number_input (- 10) 10 (current c) entry of
              Inl e \<Rightarrow> (s, Some e)
            | Inr current_val \<Rightarrow>
                if current_val \<noteq> current c then
                  (let r = update_cell_calculations (c\<lparr>current := current_val\<rparr>) (random_state s)
                   in (s\<lparr>cells_data :=
                          map (\<lambda>(k, x). if k = cell_key then (k, fst (fst r)) else (k, x))
                            (cells_data s),
                        random_state := snd (fst r)\<rparr>, snd r))
                else (s, None))"
  unfolding individual_cell_control_def Let_def
  by (simp only: assms option.case split_beta)

subsection \<open>The example sequence\<close>

lemma cc_cv_idle_run:
  assumes tasks: "tasks_data s = [CC_CV 2 cv cl ah 10, IDLE 5]"
    and pool: "pool_ok (cells_data s)"
  shows "\<exists>s0 s1.
           start_task_sequence 0 s = (s0, None) \<and>
           task_running s0 \<and> current_task_index s0 = 0 \<and> task_start_time s0 = Some 0 \<and>
           list_all (\<lambda>(k, c). current c = 2) (cells_data s0) \<and>
           task_history s0 = task_history s @
             [\<lparr>entry_timestamp = 0, entry_task = ''task_1'', entry_type = ''CC_CV'',
               entry_status = ''started''\<rparr>] \<and>
           main_tick 10000000 s0 = (s1, None) \<and>
           task_running s1 \<and> current_task_index s1 = 1 \<and>
           task_start_time s1 = Some 10000000 \<and>
           map fst (cells_data s1) = map fst (cells_data s) \<and>
           list_all (\<lambda>(k, c). current c = 0) (cells_data s1) \<and>
           task_history s1 = task_history s0 @
             [\<lparr>entry_timestamp = 10, entry_task = ''task_2'', entry_type = ''IDLE'',
               entry_status = ''started''\<rparr>] \<and>
           main_tick 14000000 s1 = (s1, None) \<and>
           main_tick 15000000 s1 =
             (s1\<lparr>task_running := False, current_task_index := 0,
                 task_start_time := Some 15000000\<rparr>, None)"
proof -
  let ?q = "s\<lparr>task_running := True, current_task_index := 0, task_start_time := Some 0\<rparr>"
  define s0 where "s0 = fst (execute_current_task 0 ?q)"
  have q_idx: "current_task_index ?q < length (tasks_data ?q)"
    and q_pool: "pool_ok (cells_data ?q)"
    using tasks pool by simp_all
  have start: "start_task_sequence 0 s = execute_current_task 0 ?q"
    using tasks by (simp add: start_task_sequence_def)
  have e0: "snd (execute_current_task 0 ?q) = None"
    by (rule execute_current_task_ok(1) [OF q_idx q_pool])
  have r0: "start_task_sequence 0 s = (s0, None)"
    unfolding start s0_def using e0 by (simp add: prod_eq_iff)
  have f0: "task_running s0" "current_task_index s0 = 0" "task_start_time s0 = Some 0"
    "tasks_data s0 = tasks_data s"
    unfolding s0_def by (simp_all add: execute_current_task_frame [OF q_idx])
  have h0: "task_history s0 = task_history s @
      [\<lparr>entry_timestamp = 0, entry_task = ''task_1'', entry_type = ''CC_CV'',
        entry_status = ''started''\<rparr>]"
    unfolding s0_def using tasks
    by (simp add: execute_current_task_ok(2) [OF q_idx q_pool] str_nat.simps)
  have p0: "pool_ok (cells_data s0)" "map fst (cells_data s0) = map fst (cells_data s)"
    unfolding s0_def by (simp_all add: execute_current_task_ok(3,4) [OF q_idx q_pool])
  have c0: "list_all (\<lambda>(k, c). current c = 2) (cells_data s0)"
    unfolding s0_def using execute_current_task_ok(5) [OF q_idx q_pool, of 0] tasks by simp
  let ?t = "s0\<lparr>current_task_index := Suc 0, task_start_time := Some 10000000\<rparr>"
  define s1 where "s1 = fst (execute_current_task 10000000 ?t)"
  have t_idx: "current_task_index ?t < length (tasks_data ?t)"
    and t_pool: "pool_ok (cells_data ?t)"
    using tasks f0 p0 by simp_all
  have tick10: "main_tick 10000000 s0 = execute_current_task 10000000 ?t"
    using tasks f0 by (simp add: main_tick_def timedelta_seconds_def Let_def)
  have e1: "snd (execute_current_task 10000000 ?t) = None"
    by (rule execute_current_task_ok(1) [OF t_idx t_pool])
  have r1: "main_tick 10000000 s0 = (s1, None)"
    unfolding tick10 s1_def using e1 by (simp add: prod_eq_iff)
  have f1: "task_running s1" "current_task_index s1 = 1" "task_start_time s1 = Some 10000000"
    "tasks_data s1 = tasks_data s"
    unfolding s1_def using f0 by (simp_all add: execute_current_task_frame [OF t_idx])
  have h1: "task_history s1 = task_history s0 @
      [\<lparr>entry_timestamp = 10, entry_task = ''task_2'', entry_type = ''IDLE'',
        entry_status = ''started''\<rparr>]"
    unfolding s1_def using tasks f0
    by (simp add: execute_current_task_ok(2) [OF t_idx t_pool] str_nat.simps)
  have p1: "map fst (cells_data s1) = map fst (cells_data s)"
    unfolding s1_def using p0 by (simp add: execute_current_task_ok(4) [OF t_idx t_pool])
  have c1: "list_all (\<lambda>(k, c). current c = 0) (cells_data s1)"
    unfolding s1_def using execute_current_task_ok(5) [OF t_idx t_pool, of 10000000] tasks f0
    by simp
  have tick14: "main_tick 14000000 s1 = (s1, None)"
    using tasks f1 by (simp add: main_tick_def timedelta_seconds_def Let_def)
  have tick15: "main_tick 15000000 s1 =
      (s1\<lparr>task_running := False, current_task_index := 0,
          task_start_time := Some 15000000\<rparr>, None)"
    using tasks f1 by (simp add: main_tick_def timedelta_seconds_def Let_def)
  from r0 f0 c0 h0 r1 f1 p1 c1 h1 tick14 tick15 show ?thesis
    by blast
qed

section \<open>The claims\<close>

text \<open>
  C1. A cell whose voltage lies between its bounds keeps it there through one update
  step with any current of magnitude at most 10: the bounds themselves are not touched,
  and the step raises only when the two bounds are equal (the state of charge divides
  by zero), after the voltage has been stepped within the bounds.
\<close>

theorem voltage_stays_in_range:
  assumes "min_voltage c \<le> voltage c" and "voltage c \<le> max_voltage c" and "\<bar>value\<bar> \<le> 10"
  shows "case update_cell_calculations (c\<lparr>current := value\<rparr>) g of
           ((c', g'), e) \<Rightarrow>
             min_voltage c' = min_voltage c \<and> max_voltage c' = max_voltage c \<and>
             min_voltage c' \<le> voltage c' \<and> voltage c' \<le> max_voltage c' \<and>
             e = (if min_voltage c = max_voltage c then Some ZeroDivisionError else None)"
proof -
  let ?c = "c\<lparr>current := value\<rparr>"
  from assms have "min_voltage ?c \<le> voltage_step ?c \<and> voltage_step ?c \<le> max_voltage ?c"
    by (intro voltage_step_range) simp_all
  then show ?thesis
    using update_cell_calculations_error [of ?c g]
    by (simp add: split_beta update_cell_calculations_frame)
qed

theorem voltage_stays_in_range_witness:
  "min_voltage demo_cell \<le> voltage demo_cell \<and> voltage demo_cell \<le> max_voltage demo_cell \<and>
   \<bar>5 :: real\<bar> \<le> 10 \<and>
   (case update_cell_calculations (demo_cell\<lparr>current := 5\<rparr>) demo_rng of
      ((c', g'), e) \<Rightarrow>
        min_voltage c' \<le> voltage c' \<and> voltage c' \<le> max_voltage c' \<and> e = None)"
  using voltage_stays_in_range [of demo_cell 5 demo_rng]
  by (simp add: demo_cell_def split_beta)

text \<open>
  C2, as the code has it. For the sequence CC_CV (10 s, 2 A), IDLE (5 s) started at 0 s
  on a pool whose cells have distinct voltage bounds: the start returns normally with
  every current at 2 and logs the first task as started; the tick at 10 s moves the
  task index to 1, sets every current to 0 and appends a history entry of status
  \<^verbatim>\<open>started\<close> for \<^verbatim>\<open>task_2\<close> of type IDLE; the tick at 14 s changes nothing; the tick at
  15 s clears the run flag, puts the index back to 0, records the instant as task start
  and appends nothing to the history.
\<close>

theorem task_sequence_run:
  assumes tasks: "tasks_data s = [CC_CV 2 cv cl ah 10, IDLE 5]"
    and pool: "pool_ok (cells_data s)"
  shows "\<exists>s0 s1.
           start_task_sequence 0 s = (s0, None) \<and>
           task_running s0 \<and> current_task_index s0 = 0 \<and> task_start_time s0 = Some 0 \<and>
           list_all (\<lambda>(k, c). current c = 2) (cells_data s0) \<and>
           task_history s0 = task_history s @
             [\<lparr>entry_timestamp = 0, entry_task = ''task_1'', entry_type = ''CC_CV'',
               entry_status = ''started''\<rparr>] \<and>
           main_tick 10000000 s0 = (s1, None) \<and>
           task_running s1 \<and> current_task_index s1 = 1 \<and>
           task_start_time s1 = Some 10000000 \<and>
           map fst (cells_data s1) = map fst (cells_data s) \<and>
           list_all (\<lambda>(k, c). current c = 0) (cells_data s1) \<and>
           task_history s1 = task_history s0 @
             [\<lparr>entry_timestamp = 10, entry_task = ''task_2'', entry_type = ''IDLE'',
               entry_status = ''started''\<rparr>] \<and>
           main_tick 14000000 s1 = (s1, None) \<and>
           main_tick 15000000 s1 =
             (s1\<lparr>task_running := False, current_task_index := 0,
                 task_start_time := Some 15000000\<rparr>, None)"
  using tasks pool by (rule cc_cv_idle_run)

theorem task_sequence_run_witness:
  "tasks_data demo_session = [CC_CV 2 4 2 10 10, IDLE 5] \<and> pool_ok (cells_data demo_session) \<and>
   task_running demo_tick10 \<and> current_task_index demo_tick10 = 1 \<and>
   list_all (\<lambda>(k, c). current c = 0) (cells_data demo_tick10) \<and>
   demo_tick14 = demo_tick10 \<and>
   demo_tick15 = demo_tick10\<lparr>task_running := False, current_task_index := 0,
     task_start_time := Some 15000000\<rparr>"
proof -
  have tasks: "tasks_data demo_session = [CC_CV 2 4 2 10 10, IDLE 5]"
    and pool: "pool_ok (cells_data demo_session)"
    by (simp_all add: demo_session_def demo_cell_def pool_ok_def)
  from task_sequence_run [OF tasks pool] tasks pool show ?thesis
    by (auto simp: demo_started_def demo_tick10_def demo_tick14_def demo_tick15_def)
qed

text \<open>
  The claim as the specification states it fails on the example session: after the
  tick at 10 s the history holds two entries of status \<^verbatim>\<open>started\<close> and none of status
  \<^verbatim>\<open>advanced\<close>, and the tick at 15 s adds no \<^verbatim>\<open>completed\<close> entry.
\<close>

theorem task_history_counterexample:
  "map entry_status (task_history demo_tick10) = [''started'', ''started''] \<and>
   map entry_status (task_history demo_tick15) = [''started'', ''started''] \<and>
   task_running demo_tick15 = False \<and> current_task_index demo_tick15 = 0"
proof -
  have tasks: "tasks_data demo_session = [CC_CV 2 4 2 10 10, IDLE 5]"
    and pool: "pool_ok (cells_data demo_session)"
    and hist: "task_history demo_session = []"
    by (simp_all add: demo_session_def demo_cell_def pool_ok_def)
  from cc_cv_idle_run [OF tasks pool] hist show ?thesis
    by (auto simp: demo_started_def demo_tick10_def demo_tick14_def demo_tick15_def)
qed

text \<open>
  C3. With \<open>min_v < max_v\<close> the state of charge is defined, equals
  \<open>(v - min_v) / (max_v - min_v) * 100\<close> clamped to \<open>[0, 100]\<close>, lies in \<open>[0, 100]\<close>, and
  does not decrease when the voltage grows.
\<close>

theorem soc_bounded_monotone:
  assumes "min_v < max_v"
  shows "\<exists>s. calculate_soc_percentage v min_v max_v = Inr s \<and> 0 \<le> s \<and> s \<le> 100 \<and>
           s = max 0 (min 100 ((v - min_v) / (max_v - min_v) * 100)) \<and>
           (\<forall>v'. v \<le> v' \<longrightarrow>
              (\<exists>s'. calculate_soc_percentage v' min_v max_v = Inr s' \<and> s \<le> s'))"
proof -
  let ?f = "\<lambda>x. (x - min_v) / (max_v - min_v) * 100"
  from assms have pos: "0 < max_v - min_v" by simp
  have mono: "max 0 (min 100 (?f v)) \<le> max 0 (min 100 (?f v'))" if "v \<le> v'" for v'
  proof -
    from that pos have "?f v \<le> ?f v'" by (simp add: divide_right_mono)
    then show ?thesis by (intro max.mono min.mono order_refl)
  qed
  from pos have val: "calculate_soc_percentage x min_v max_v = Inr (max 0 (min 100 (?f x)))" for x
    by (simp add: calculate_soc_percentage_def)
  have range: "0 \<le> max 0 (min 100 (?f v))" "max 0 (min 100 (?f v)) \<le> 100"
    by simp_all
  show ?thesis
    using mono range by (simp add: val)
qed

theorem soc_bounded_monotone_witness:
  "(2.8::real) < 3.6 \<and> calculate_soc_percentage 3.3 2.8 3.6 = Inr 62.5 \<and>
   calculate_soc_percentage 3.5 2.8 3.6 = Inr 87.5"
  using soc_bounded_monotone [of "2.8" "3.6" "3.3"]
  by (simp add: calculate_soc_percentage_def)

text \<open>
  C4. A cell at 3.20 V with bounds 2.80 V and 3.60 V and a current of +5 A, the three
  decimals being the doubles nearest to them: in rounded arithmetic, whatever the
  rounding within the relative error of doubles, one update step returns normally and
  leaves, to the digits displayed, the \<^verbatim>\<open>capacity\<close> field 16.00 (from the voltage before
  the step), the voltage 3.30 (the step is \<open>min 0.1 (5 * 0.02) = 0.1\<close>) and the state of
  charge 62.5; each of the three values is within \<open>10\<^sup>-\<^sup>9\<close> of the decimal.
\<close>

theorem update_example:
  assumes "fl_ok fl"
  shows "case update_cell_calculations_fl fl
            (c\<lparr>voltage := fl 3.2, min_voltage := fl 2.8, max_voltage := fl 3.6, current := 5\<rparr>) g of
           ((c', g'), e) \<Rightarrow>
             e = None \<and>
             py_round (capacity c') 2 = 16 \<and> \<bar>capacity c' - 16\<bar> \<le> 1 / 10 ^ 9 \<and>
             py_round (voltage c') 2 = 3.3 \<and> \<bar>voltage c' - 3.3\<bar> \<le> 1 / 10 ^ 9 \<and>
             py_round (soc c') 1 = 62.5 \<and> \<bar>soc c' - 62.5\<bar> \<le> 1 / 10 ^ 9 \<and>
             \<bar>min (fl 0.1) (fl (current c' * fl 0.02)) - 0.1\<bar> \<le> 1 / 10 ^ 9"
proof -
  let ?c = "c\<lparr>voltage := fl 3.2, min_voltage := fl 2.8, max_voltage := fl 3.6, current := 5\<rparr>"
  define d :: real where "d = 1 / 10000000000000"
  define V MN MX where "V = fl 3.2" and "MN = fl 2.8" and "MX = fl 3.6"
  define p where "p = fl (V * 5)"
  define cap where "cap = fl (py_round p 2)"
  define m where "m = fl (5 * fl 0.02)"
  define dv where "dv = min (fl 0.1) m"
  define w where "w = fl (V + dv)"
  define v where "v = min MX w"
  define a b where "a = fl (v - MN)" and "b = fl (MX - MN)"
  define q where "q = fl (a / b)"
  define r where "r = fl (q * 100)"
  define s where "s = max 0 (min 100 r)"
  have n: "\<bar>fl x - x\<bar> \<le> d" if "\<bar>x\<bar> \<le> 100" for x
    using fl_near [OF assms that] by (simp only: d_def)
  have round16: "py_round x 2 = 16" if "\<bar>x - 16\<bar> < 1 / 200" for x
    using py_round_near [of x 1600 2] that by simp
  have round33: "py_round x 2 = 3.3" if "\<bar>x - 33 / 10\<bar> < 1 / 200" for x
    using py_round_near [of x 330 2] that by simp
  have round625: "py_round x 1 = 62.5" if "\<bar>x - 625 / 10\<bar> < 1 / 20" for x
    using py_round_near [of x 625 1] that by simp
  have V: "\<bar>V - 32 / 10\<bar> \<le> d" and MN: "\<bar>MN - 28 / 10\<bar> \<le> d" and MX: "\<bar>MX - 36 / 10\<bar> \<le> d"
    unfolding V_def MN_def MX_def by (rule n, simp)+
  have c1: "\<bar>fl 0.1 - 1 / 10\<bar> \<le> d" by (rule n) simp
  have c2: "\<bar>fl 0.02 - 1 / 50\<bar> \<le> d" using n [of "0.02"] by simp
  have "\<bar>V * 5\<bar> \<le> 100" using V d_def by (simp only: abs_le_iff abs_less_iff) linarith
  from n [OF this] V have p: "\<bar>p - 16\<bar> \<le> 6 * d" unfolding p_def by (simp only: abs_le_iff abs_less_iff) linarith
  then have "\<bar>p - 16\<bar> < 1 / 200" using d_def by (simp only: abs_le_iff abs_less_iff) linarith
  then have pr: "py_round p 2 = 16" by (rule round16)
  have "\<bar>fl 16 - 16\<bar> \<le> d" by (rule n) simp
  then have cap: "\<bar>cap - 16\<bar> \<le> d" by (simp only: cap_def pr)
  then have "\<bar>cap - 16\<bar> < 1 / 200" using d_def by (simp only: abs_le_iff abs_less_iff) linarith
  then have capr: "py_round cap 2 = 16" by (rule round16)
  have "\<bar>5 * fl 0.02\<bar> \<le> 100" using c2 d_def by (simp only: abs_le_iff abs_less_iff) linarith
  from n [OF this] c2 have m: "\<bar>m - 1 / 10\<bar> \<le> 6 * d" unfolding m_def by (simp only: abs_le_iff abs_less_iff) linarith
  with c1 have dv: "\<bar>dv - 1 / 10\<bar> \<le> 6 * d" unfolding dv_def using d_def by (simp only: abs_le_iff abs_less_iff) linarith
  have "\<bar>V + dv\<bar> \<le> 100" using V dv d_def by (simp only: abs_le_iff abs_less_iff) linarith
  from n [OF this] V dv have w: "\<bar>w - 33 / 10\<bar> \<le> 8 * d" unfolding w_def by (simp only: abs_le_iff abs_less_iff) linarith
  with MX have "w \<le> MX" using d_def by (simp only: abs_le_iff abs_less_iff) linarith
  then have vw: "v = w" unfolding v_def by (rule min_absorb2)
  from w have v: "\<bar>v - 33 / 10\<bar> \<le> 8 * d" by (simp only: vw)
  then have "\<bar>v - 33 / 10\<bar> < 1 / 200" using d_def by (simp only: abs_le_iff abs_less_iff) linarith
  then have vr: "py_round v 2 = 3.3" by (rule round33)
  have "\<bar>v - MN\<bar> \<le> 100" using v MN d_def by (simp only: abs_le_iff abs_less_iff) linarith
  from n [OF this] v MN have a: "\<bar>a - 1 / 2\<bar> \<le> 10 * d" unfolding a_def by (simp only: abs_le_iff abs_less_iff) linarith
  have "\<bar>MX - MN\<bar> \<le> 100" using MX MN d_def by (simp only: abs_le_iff abs_less_iff) linarith
  from n [OF this] MX MN have b: "\<bar>b - 4 / 5\<bar> \<le> 3 * d" unfolding b_def by (simp only: abs_le_iff abs_less_iff) linarith
  then have b0: "b \<noteq> 0" using d_def by (simp only: abs_le_iff abs_less_iff) linarith
  from a b have "\<bar>a - 1 / 2\<bar> \<le> 10 / 10000000000000" "\<bar>b - 4 / 5\<bar> \<le> 3 / 10000000000000"
    using d_def by (simp_all only: abs_le_iff abs_less_iff) linarith+
  then have "\<bar>a / b - 5 / 8\<bar> \<le> 20 / 10000000000000" by (rule quotient_near)
  then have ab: "\<bar>a / b - 5 / 8\<bar> \<le> 20 * d" using d_def by (simp only: abs_le_iff abs_less_iff) linarith
  then have "\<bar>a / b\<bar> \<le> 100" using d_def by (simp only: abs_le_iff abs_less_iff) linarith
  from n [OF this] ab have q: "\<bar>q - 5 / 8\<bar> \<le> 21 * d" unfolding q_def by (simp only: abs_le_iff abs_less_iff) linarith
  then have "\<bar>q * 100\<bar> \<le> 100" using d_def by (simp only: abs_le_iff abs_less_iff) linarith
  from n [OF this] q have r: "\<bar>r - 625 / 10\<bar> \<le> 2101 * d" unfolding r_def by (simp only: abs_le_iff abs_less_iff) linarith
  then have "0 \<le> r" "r \<le> 100" using d_def by (simp_all only: abs_le_iff abs_less_iff) linarith+
  then have sr: "s = r" unfolding s_def by simp
  from r have s: "\<bar>s - 625 / 10\<bar> \<le> 2101 * d" by (simp only: sr)
  then have "\<bar>s - 625 / 10\<bar> < 1 / 20" using d_def by (simp only: abs_le_iff abs_less_iff) linarith
  then have socr: "py_round s 1 = 62.5" by (rule round625)
  from cap v s dv have bounds: "\<bar>cap - 16\<bar> \<le> 1 / 10 ^ 9" "\<bar>v - 3.3\<bar> \<le> 1 / 10 ^ 9"
    "\<bar>s - 62.5\<bar> \<le> 1 / 10 ^ 9" "\<bar>dv - 0.1\<bar> \<le> 1 / 10 ^ 9"
    using d_def by simp_all
  have b0': "fl (max_voltage ?c - min_voltage ?c) \<noteq> 0"
    using b0 by (simp add: b_def MX_def MN_def)
  have c5: "1 < current ?c" by simp
  from update_cell_calculations_fl_charging [where c = ?c and fl = fl and g = g, OF c5 b0']
  have eq: "update_cell_calculations_fl fl ?c g =
      ((?c\<lparr>capacity := cap, voltage := v, soc := s,
           temp := max 20 (min 60 (fl (temp c + fl (- 1 + fl (fl 3 * g 0)))))\<rparr>,
        \<lambda>n. g (Suc n)), None)"
    unfolding s_def r_def q_def a_def b_def v_def w_def dv_def m_def cap_def p_def
      V_def MN_def MX_def
    by (simp add: mult.commute)
  from bounds(4) have step: "\<bar>min (fl 0.1) (fl (5 * fl 0.02)) - 0.1\<bar> \<le> 1 / 10 ^ 9"
    by (simp only: dv_def m_def)
  from bounds(1-3) capr vr socr step show ?thesis
    unfolding eq by simp
qed

theorem update_example_witness:
  "fl_ok fl64 \<and>
   (case update_cell_calculations_fl fl64
      (demo_cell\<lparr>voltage := fl64 3.2, min_voltage := fl64 2.8, max_voltage := fl64 3.6,
         current := 5\<rparr>) demo_rng of
      ((c', g'), e) \<Rightarrow>
        e = None \<and>
        capacity c' = 16 \<and> py_round (capacity c') 2 = 16 \<and>
        voltage c' = 7430939385161319 / 2 ^ 51 \<and> py_round (voltage c') 2 = 3.3 \<and>
        soc c' = 8796093022208005 / 2 ^ 47 \<and> py_round (soc c') 1 = 62.5)"
  using update_example [OF fl64_ok, of demo_cell demo_rng] fl64_ok
    update_example_doubles [of demo_cell demo_rng]
  by (simp add: split_beta)

text \<open>
  C5. \<^verbatim>\<open>stop_all_tasks\<close>, from any state of the sequencer, leaves the run flag off and
  the task index at 0; on a pool whose cells have distinct voltage bounds it returns
  normally with every cell kept and every current at 0.
\<close>

theorem stop_all_tasks_resets:
  "task_running (fst (stop_all_tasks s)) = False \<and>
   current_task_index (fst (stop_all_tasks s)) = 0 \<and>
   (pool_ok (cells_data s) \<longrightarrow>
      snd (stop_all_tasks s) = None \<and>
      map fst (cells_data (fst (stop_all_tasks s))) = map fst (cells_data s) \<and>
      list_all (\<lambda>(k, c). current c = 0) (cells_data (fst (stop_all_tasks s))))"
proof -
  let ?s = "s\<lparr>task_running := False, current_task_index := 0\<rparr>"
  have "pool_ok (cells_data ?s) = pool_ok (cells_data s)" by simp
  with set_all_currents_ok [of ?s 0] show ?thesis
    by (simp add: stop_all_tasks_def set_all_currents_frame)
qed

theorem stop_all_tasks_resets_witness:
  "pool_ok (cells_data demo_running) \<and> task_running demo_running \<and>
   current_task_index demo_running = 1 \<and>
   task_running (fst (stop_all_tasks demo_running)) = False \<and>
   current_task_index (fst (stop_all_tasks demo_running)) = 0 \<and>
   snd (stop_all_tasks demo_running) = None \<and>
   list_all (\<lambda>(k, c). current c = 0) (cells_data (fst (stop_all_tasks demo_running)))"
  using stop_all_tasks_resets [of demo_running]
  by (simp add: demo_running_def demo_session_def demo_cell_def pool_ok_def)

text \<open>
  C6, as the code has it. No chemistry tag is rejected: the initialisation of the cells
  returns normally for every list of tags, and each cell carries the entries of the
  table for its tag, which are those of LFP (2.8/3.6/3.2 V, 100 Ah) when the tag in
  lower case is \<^verbatim>\<open>lfp\<close>, those of NMC (3.2/4.0/3.6 V, 120 Ah) when it is \<^verbatim>\<open>nmc\<close>, and
  the generic ones (3.0/4.2/3.7 V, 110 Ah) for every other tag.
\<close>

theorem setup_cells_never_rejects:
  "snd (setup_cells types s) = None \<and>
   map (\<lambda>(k, c). specs_of c) (cells_data (fst (setup_cells types s))) = map get_cell_specs types \<and>
   get_cell_specs ct =
     (if lower ct = ''lfp'' then
        \<lparr>spec_nominal_voltage = 3.2, spec_min_voltage = 2.8, spec_max_voltage = 3.6,
         spec_nominal_capacity = 100\<rparr>
      else if lower ct = ''nmc'' then
        \<lparr>spec_nominal_voltage = 3.6, spec_min_voltage = 3.2, spec_max_voltage = 4.0,
         spec_nominal_capacity = 120\<rparr>
      else
        \<lparr>spec_nominal_voltage = 3.7, spec_min_voltage = 3.0, spec_max_voltage = 4.2,
         spec_nominal_capacity = 110\<rparr>)"
  using init_cells_total [of 1 types "random_state s"]
  by (simp add: setup_cells_unfold get_cell_specs_def)

text \<open>
  The claim as the specification states it fails on the tag \<^verbatim>\<open>xyz\<close>: the
  initialisation returns normally, with a cell of the generic bounds.
\<close>

theorem unknown_chemistry_counterexample:
  "setup_cells [''xyz''] demo_session =
     (demo_session\<lparr>cells_data :=
        [(''cell_1_xyz'',
          \<lparr>voltage = 3.6, current = 0, temp = 32.5, capacity = 0, min_voltage = 3.0,
           max_voltage = 4.2, nominal_voltage = 3.7, nominal_capacity = 110, soc = 50,
           cell_type = ''XYZ''\<rparr>)],
        cell_types := [''xyz'']\<rparr>, None)"
  by (simp add: setup_cells_def demo_session_def demo_rng_def get_cell_specs_def uniform_def
      calculate_soc_percentage_def py_round_def round_half_even_def str_nat.simps
      lower_def lower_char_def upper_def upper_char_def Let_def)

text \<open>
  C7, as the code has it. A manual current outside the range is refused by the widget
  and raises no range error: for a cell of the pool and an entry of magnitude above
  10 (11, say), the handler leaves the whole session, the cell included, as it was,
  and returns normally when the stored current lies in \<open>[-10, 10]\<close>; when the stored
  current itself lies outside (a task can set it so), it is the widget call that
  raises, again with nothing changed. An entry of the range that differs from the
  stored current, on a cell with stored current in the range, becomes the current of
  that cell, with one update step, and the other cells stay as they were.
\<close>

theorem out_of_range_entry_refused:
  assumes "map_of (cells_data s) cell_key = Some c"
  shows "(\<bar>x\<bar> > 10 \<longrightarrow>
            individual_cell_control cell_key (Some x) s =
              (s, if - 10 \<le> current c \<and> current c \<le> 10 then None
                  else Some StreamlitAPIException)) \<and>
         (\<bar>x\<bar> \<le> 10 \<and> \<bar>current c\<bar> \<le> 10 \<and> x \<noteq> current c \<longrightarrow>
            (case individual_cell_control cell_key (Some x) s of
               (s', e) \<Rightarrow>
                 e = (if min_voltage c = max_voltage c then Some ZeroDivisionError else None) \<and>
                 map_of (cells_data s') cell_key =
                   Some (fst (fst (update_cell_calculations (c\<lparr>current := x\<rparr>)
                     (random_state s)))) \<and>
                 current (fst (fst (update_cell_calculations (c\<lparr>current := x\<rparr>)
                     (random_state s)))) = x \<and>
                 (\<forall>k. k \<noteq> cell_key \<longrightarrow> map_of (cells_data s') k = map_of (cells_data s) k)))"
proof (intro conjI impI)
  assume "\<bar>x\<bar> > 10"
  then show "individual_cell_control cell_key (Some x) s =
      (s, if - 10 \<le> current c \<and> current c \<le> 10 then None else Some StreamlitAPIException)"
    by (simp add: individual_cell_control_widget [OF assms] number_input_refused)
next
  assume a: "\<bar>x\<bar> \<le> 10 \<and> \<bar>current c\<bar> \<le> 10 \<and> x \<noteq> current c"
  then have w: "number_input (- 10) 10 (current c) (Some x) = Inr x"
    by (intro number_input_accepted) simp_all
  from a have ne: "x \<noteq> current c" by simp
  have eq: "individual_cell_control cell_key (Some x) s =
      (let r = update_cell_calculations (c\<lparr>current := x\<rparr>) (random_state s)
       in (s\<lparr>cells_data :=
              map (\<lambda>(k, y). if k = cell_key then (k, fst (fst r)) else (k, y)) (cells_data s),
            random_state := snd (fst r)\<rparr>, snd r))"
    using ne by (simp add: individual_cell_control_widget [OF assms] w)
  from assms update_cell_calculations_error [of "c\<lparr>current := x\<rparr>" "random_state s"]
  show "case individual_cell_control cell_key (Some x) s of
      (s', e) \<Rightarrow>
        e = (if min_voltage c = max_voltage c then Some ZeroDivisionError else None) \<and>
        map_of (cells_data s') cell_key =
          Some (fst (fst (update_cell_calculations (c\<lparr>current := x\<rparr>) (random_state s)))) \<and>
        current (fst (fst (update_cell_calculations (c\<lparr>current := x\<rparr>)
          (random_state s)))) = x \<and>
        (\<forall>k. k \<noteq> cell_key \<longrightarrow> map_of (cells_data s') k = map_of (cells_data s) k)"
    unfolding eq Let_def
    by (simp add: map_of_replace update_cell_calculations_frame)
qed

theorem out_of_range_entry_refused_witness:
  "map_of (cells_data demo_session) ''cell_1_lfp'' = Some demo_cell \<and> \<bar>11 :: real\<bar> > 10 \<and>
   individual_cell_control ''cell_1_lfp'' (Some 11) demo_session = (demo_session, None) \<and>
   individual_cell_control ''cell_1_lfp'' (Some 12) demo_overdriven =
     (demo_overdriven, Some StreamlitAPIException) \<and>
   \<bar>5 :: real\<bar> \<le> 10 \<and>
   snd (individual_cell_control ''cell_1_lfp'' (Some 5) demo_session) = None"
proof -
  have c: "map_of (cells_data demo_session) ''cell_1_lfp'' = Some demo_cell"
    and r: "map_of (cells_data demo_overdriven) ''cell_1_lfp'' =
      Some (demo_cell\<lparr>current := 11, capacity := 35.2\<rparr>)"
    by (simp_all add: demo_overdriven_def demo_session_def)
  have i: "current demo_cell = 0" "min_voltage demo_cell \<noteq> max_voltage demo_cell"
    by (simp_all add: demo_cell_def)
  from out_of_range_entry_refused [OF c, of 11] out_of_range_entry_refused [OF c, of 5]
    out_of_range_entry_refused [OF r, of 12] c i
  show ?thesis by (simp add: split_beta)
qed

text \<open>
  The claim as the specification states it fails on the entry 11 for the cell of the
  example session: no exception is raised.
\<close>

theorem out_of_range_entry_counterexample:
  "individual_cell_control ''cell_1_lfp'' (Some 11) demo_session = (demo_session, None)"
  by (simp add: individual_cell_control_def number_input_def demo_session_def demo_cell_def)

text \<open>
  C8. The status depends on the current and on the task flag alone: above 0.1 it is
  Charging, below -0.1 Discharging, and from -0.1 to 0.1 Idle, in the enhanced
  dashboard (with and without a running task) and in the basic one.
\<close>

theorem status_thresholds:
  "(0.1 < i \<longrightarrow>
      get_cell_status i False = (''Charging'', ''charging'') \<and>
      get_cell_status i True = (''Task: Charging'', ''task'') \<and>
      get_cell_status_basic i = (''Charging'', ''charging'')) \<and>
   (i < - 0.1 \<longrightarrow>
      get_cell_status i False = (''Discharging'', ''discharging'') \<and>
      get_cell_status i True = (''Task: Discharging'', ''task'') \<and>
      get_cell_status_basic i = (''Discharging'', ''discharging'')) \<and>
   (- 0.1 \<le> i \<and> i \<le> 0.1 \<longrightarrow>
      get_cell_status i False = (''Idle'', ''idle'') \<and>
      get_cell_status i True = (''Task: Idle'', ''task'') \<and>
      get_cell_status_basic i = (''Idle'', ''idle''))"
  by (simp add: get_cell_status_def get_cell_status_basic_def)

theorem status_thresholds_witness:
  "get_cell_status 2 False = (''Charging'', ''charging'') \<and>
   get_cell_status (- 2) True = (''Task: Discharging'', ''task'') \<and>
   get_cell_status_basic 0.1 = (''Idle'', ''idle'')"
  using status_thresholds [of 2] status_thresholds [of "- 2"] status_thresholds [of "0.1"]
  by simp

text \<open>
  C9. On a cell with current 0 whose stored state of charge is the one of its voltage,
  any positive number of update steps returns normally, draws no random number and
  changes nothing but the \<^verbatim>\<open>capacity\<close> field, which becomes 0: voltage, state of
  charge and temperature stay as they were.
\<close>

theorem idle_updates_change_nothing:
  assumes "calculate_soc_percentage (voltage c) (min_voltage c) (max_voltage c) = Inr (soc c)"
    and "current c = 0" and "0 < n"
  shows "repeat_update n c g = ((c\<lparr>capacity := 0\<rparr>, g), None)"
  using assms
proof (induction n arbitrary: c)
  case 0
  then show ?case by simp
next
  case (Suc n)
  let ?c = "c\<lparr>capacity := 0\<rparr>"
  from Suc.prems have step: "update_cell_calculations c g = ((?c, g), None)"
    by (simp add: update_cell_calculations_idle)
  show ?case
  proof (cases n)
    case 0
    with step show ?thesis by simp
  next
    case (Suc m)
    from Suc.prems have
      "calculate_soc_percentage (voltage ?c) (min_voltage ?c) (max_voltage ?c) = Inr (soc ?c)"
      "current ?c = 0"
      by simp_all
    with Suc.IH [of ?c] Suc have "repeat_update n ?c g = ((?c, g), None)"
      by simp
    with step show ?thesis by simp
  qed
qed

theorem idle_updates_change_nothing_witness:
  "calculate_soc_percentage (voltage demo_cell) (min_voltage demo_cell) (max_voltage demo_cell) =
     Inr (soc demo_cell) \<and>
   current demo_cell = 0 \<and> (0 :: nat) < 3 \<and>
   repeat_update 3 (demo_cell\<lparr>capacity := 7\<rparr>) demo_rng = ((demo_cell, demo_rng), None)"
  using idle_updates_change_nothing [of "demo_cell\<lparr>capacity := 7\<rparr>" 3 demo_rng]
  by (simp add: demo_cell_def calculate_soc_percentage_def)

text \<open>
  C10. With the setup complete and a sequence saved, a running sequence that is paused can be started again: the pause only clears
  the run flag, and the start button, enabled again, sets the run flag, puts the task
  index back to 0 and the task start time to the instant of the click, whatever
  progress the paused run had made; on a pool whose cells have distinct voltage bounds
  it returns normally and logs the first task as started.
\<close>

theorem restart_from_pause:
  assumes ready: "setup_complete s" and tasks: "tasks_data s \<noteq> []"
    and running: "task_running s"
  shows "task_control PauseTasks t_pause s = (s\<lparr>task_running := False\<rparr>, None) \<and>
         (case task_control StartTaskSequence t_start (s\<lparr>task_running := False\<rparr>) of
            (r, e) \<Rightarrow>
              task_running r \<and> current_task_index r = 0 \<and>
              task_start_time r = Some t_start \<and> tasks_data r = tasks_data s \<and>
              (pool_ok (cells_data s) \<longrightarrow>
                 e = None \<and>
                 task_history r = task_history s @
                   [\<lparr>entry_timestamp = t_start div 1000000, entry_task = ''task_1'',
                     entry_type = task_type (hd (tasks_data s)),
                     entry_status = ''started''\<rparr>]))"
proof -
  let ?p = "s\<lparr>task_running := False\<rparr>"
  let ?q = "?p\<lparr>task_running := True, current_task_index := 0, task_start_time := Some t_start\<rparr>"
  from assms have pause: "task_control PauseTasks t_pause s = (?p, None)"
    by (simp add: task_control_def)
  from assms have start: "task_control StartTaskSequence t_start ?p = execute_current_task t_start ?q"
    by (simp add: task_control_def start_task_sequence_def)
  from tasks have idx: "current_task_index ?q < length (tasks_data ?q)"
    by simp
  have hd: "tasks_data ?q ! current_task_index ?q = hd (tasks_data s)"
    using tasks by (simp add: hd_conv_nth)
  have "pool_ok (cells_data ?q) = pool_ok (cells_data s)" by simp
  with execute_current_task_ok(1,2) [OF idx, of t_start] hd
  have ok: "pool_ok (cells_data s) \<longrightarrow>
      snd (execute_current_task t_start ?q) = None \<and>
      task_history (fst (execute_current_task t_start ?q)) = task_history s @
        [\<lparr>entry_timestamp = t_start div 1000000, entry_task = ''task_1'',
          entry_type = task_type (hd (tasks_data s)), entry_status = ''started''\<rparr>]"
    by (simp add: str_nat.simps)
  from execute_current_task_frame [OF idx, of t_start] ok show ?thesis
    by (simp add: pause start split_beta)
qed

theorem restart_from_pause_witness:
  "setup_complete demo_running \<and> tasks_data demo_running \<noteq> [] \<and>
   task_running demo_running \<and>
   current_task_index demo_running = 1 \<and>
   task_control PauseTasks 7000000 demo_running =
     (demo_running\<lparr>task_running := False\<rparr>, None) \<and>
   (case task_control StartTaskSequence 9000000 (demo_running\<lparr>task_running := False\<rparr>) of
      (r, e) \<Rightarrow>
        task_running r \<and> current_task_index r = 0 \<and> task_start_time r = Some 9000000)"
proof -
  have ready: "setup_complete demo_running"
    and tasks: "tasks_data demo_running \<noteq> []"
    and running: "task_running demo_running"
    and index: "current_task_index demo_running = 1"
    by (simp_all add: demo_running_def demo_session_def)
  from restart_from_pause [where t_pause = 7000000 and t_start = 9000000, OF ready tasks running]
    ready tasks running index
  show ?thesis
    by (simp add: split_beta)
qed

end
